theory Spec2Isabelle
  imports Complex_Main
begin

section \<open>Kernel quadrature estimators of \<^verbatim>\<open>utils/kernel_means.py\<close>\<close>

text \<open>
  The module holds seven single-instance estimators \<^verbatim>\<open>KQ_<kernel>_<measure>\<close> and, for
  each, a wrapper \<^verbatim>\<open>..._Vectorized\<close> built with \<^verbatim>\<open>jax.vmap\<close>.

  Numbers. The source computes in floating point. The model computes in exact
  arithmetic: an array entry is a \<^typ>\<open>real\<close>, the constant \<^verbatim>\<open>1e-6\<close> is the real
  \<open>1 / 10 ^ 6\<close>, and a result of the source that is NaN or infinite is \<open>None\<close>.
  Rounding is not modelled.

  Arrays. A vector (shape \<open>(N,)\<close>) is a list, a matrix (shape \<open>(N, D)\<close>) is the list
  of its rows. The kernel functions \<^verbatim>\<open>my_*\<close> and the embeddings \<^verbatim>\<open>kme_*\<close> come from
  \<^verbatim>\<open>utils.kernels\<close>, which is not part of the verified source; every estimator takes
  them as parameters, typed by their interface: a kernel maps two sample sets and a
  length scale to a matrix, an embedding maps the measure parameters, a length scale and a
  sample set to a vector.
\<close>

type_synonym vec = "real list"
type_synonym mat = "real list list"

text \<open>A float of the source: \<open>Some x\<close> a finite value, \<open>None\<close> NaN or an infinity.\<close>

type_synonym flt = "real option"

text \<open>
  What a call can raise. \<open>InAxesLength k n\<close>: \<^verbatim>\<open>jax.vmap\<close> was given \<open>k\<close> entries in
  \<^verbatim>\<open>in_axes\<close> for \<open>n\<close> positional arguments. \<open>NoMappedAxis\<close>: every entry of
  \<^verbatim>\<open>in_axes\<close> is \<^verbatim>\<open>None\<close>. \<open>AxisRank\<close>: an argument mapped along axis 0 has rank 0.
  \<open>AxisSizes\<close>: the mapped arguments disagree on the size of axis 0. \<open>Arity\<close>: a Python
  function was called with the wrong number of arguments. \<open>ContractShape\<close>: the operands of
  \<^verbatim>\<open>@\<close> disagree on the contracted dimension. \<open>DocumentedShape\<close>: an argument, or what a
  kernel returned, has not the shape that the docstring or the kernel interface gives it;
  the model does not follow the source on such inputs.
\<close>

datatype error =
    InAxesLength nat nat
  | NoMappedAxis
  | AxisRank
  | AxisSizes
  | Arity
  | ContractShape
  | DocumentedShape

subsection \<open>The array operations the estimators use\<close>

text \<open>\<^verbatim>\<open>X.shape[1]\<close>, read off the first row (a matrix without rows does not record it).\<close>

definition ncols :: "mat \<Rightarrow> nat" where
  "ncols X = (case X of [] \<Rightarrow> 0 | r # _ \<Rightarrow> length r)"

text \<open>\<^verbatim>\<open>X.mean(0)\<close>: the mean of every column.\<close>

definition mean0 :: "mat \<Rightarrow> vec" where
  "mean0 X = map (\<lambda>j. sum_list (map (\<lambda>r. r ! j) X) / real (length X)) [0..<ncols X]"

text \<open>\<^verbatim>\<open>X - m\<close> for a matrix \<open>X\<close> and a vector \<open>m\<close>: \<open>m\<close> is subtracted from every row.\<close>

definition sub_rows :: "mat \<Rightarrow> vec \<Rightarrow> mat" where
  "sub_rows X m = map (\<lambda>r. map2 (-) r m) X"

definition jnp_abs :: "mat \<Rightarrow> mat" where
  "jnp_abs X = map (map abs) X"

text \<open>
  \<^verbatim>\<open>jnp.median\<close> without an axis works on the flattened array: the middle entry of
  the sorted entries, the mean of the two middle entries when their number is even, and
  NaN when there is none.
\<close>

definition median_list :: "real list \<Rightarrow> flt" where
  "median_list xs =
     (let s = sort xs; n = length s in
      if n = 0 then None
      else if odd n then Some (s ! (n div 2))
      else Some ((s ! (n div 2 - 1) + s ! (n div 2)) / 2))"

definition jnp_median :: "mat \<Rightarrow> flt" where
  "jnp_median X = median_list (concat X)"

text \<open>\<^verbatim>\<open>c * M\<close> and \<^verbatim>\<open>c * v\<close> for a scalar \<open>c\<close>.\<close>

definition smult :: "real \<Rightarrow> mat \<Rightarrow> mat" where
  "smult c M = map (map ((*) c)) M"

definition vsmult :: "real \<Rightarrow> vec \<Rightarrow> vec" where
  "vsmult c v = map ((*) c) v"

text \<open>\<^verbatim>\<open>jnp.ones(D)\<close> and \<^verbatim>\<open>jnp.eye(N)\<close>.\<close>

definition jnp_ones :: "nat \<Rightarrow> vec" where
  "jnp_ones D = replicate D 1"

definition jnp_eye :: "nat \<Rightarrow> mat" where
  "jnp_eye N = map (\<lambda>i. map (\<lambda>j. if i = j then 1 else 0) [0..<N]) [0..<N]"

text \<open>A matrix with \<open>n\<close> rows of \<open>m\<close> entries each.\<close>

definition is_mat :: "nat \<Rightarrow> nat \<Rightarrow> mat \<Rightarrow> bool" where
  "is_mat n m M \<longleftrightarrow> length M = n \<and> list_all (\<lambda>r. length r = m) M"

text \<open>
  \<^verbatim>\<open>K + E\<close> where \<open>E\<close> is \<open>N \<times> N\<close>. A kernel returns an \<open>N \<times> N\<close> matrix for two
  sample sets of \<open>N\<close> points, so the sum is entry by entry; any other shape of \<open>K\<close> is
  outside the kernel interface (and NumPy broadcasting of it is not modelled).
\<close>

definition madd :: "nat \<Rightarrow> mat \<Rightarrow> mat \<Rightarrow> error + mat" where
  "madd N K E =
     (if is_mat N N K \<and> is_mat N N E then Inr (map2 (map2 (+)) K E)
      else Inl DocumentedShape)"

text \<open>The dot product of two vectors of one length.\<close>

definition dot :: "vec \<Rightarrow> vec \<Rightarrow> real" where
  "dot u v = sum_list (map2 (*) u v)"

subsection \<open>The matrix inverse\<close>

text \<open>
  \<^verbatim>\<open>jnp.linalg.inv\<close> is a library function: it factors the matrix by Gaussian
  elimination with partial pivoting and solves against the columns of the identity. The
  model does the same in exact arithmetic, column by column. The library does not raise on
  a singular matrix: a pivot is \<open>0\<close> then and the entries it returns are infinite or NaN,
  here \<open>None\<close>.
\<close>

text \<open>The pivot: the first position of an entry of largest absolute value.\<close>

fun argmax_abs :: "real list \<Rightarrow> nat" where
  "argmax_abs [] = 0"
| "argmax_abs (x # xs) =
     (if xs = [] then 0
      else let p = argmax_abs xs in if \<bar>x\<bar> < \<bar>xs ! p\<bar> then Suc p else 0)"

definition swap_rows :: "nat \<Rightarrow> 'a list \<Rightarrow> 'a list" where
  "swap_rows p xs = xs[0 := xs ! p, p := xs ! 0]"

text \<open>
  One step of the elimination, for the pivot row \<open>a # r\<close> and the rows \<open>rest\<close> below
  it: the multiple of the pivot row that clears its first entry is subtracted from every
  row; the first column is dropped.
\<close>

definition eliminate :: "real \<Rightarrow> vec \<Rightarrow> mat \<Rightarrow> mat" where
  "eliminate a r rest = map (\<lambda>row. map2 (\<lambda>rj mj. mj - hd row / a * rj) r (tl row)) rest"

text \<open>
  \<open>lu_solve n M b\<close>: the solution \<open>x\<close> of \<open>M x = b\<close> for an \<open>n \<times> n\<close> matrix
  \<open>M\<close> and a vector \<open>b\<close> of length \<open>n\<close> (so every \<open>hd\<close> and \<open>tl\<close> below is
  of a list with an entry; the estimators invert \<open>K + eps * I\<close>, which is \<open>N \<times> N\<close>).
\<close>

fun lu_solve :: "nat \<Rightarrow> mat \<Rightarrow> vec \<Rightarrow> vec option" where
  "lu_solve 0 M b = Some []"
| "lu_solve (Suc n) M b =
     (let p = argmax_abs (map hd M);
          M' = swap_rows p M;
          b' = swap_rows p b;
          a = hd (hd M'); r = tl (hd M'); rest = tl M'
      in if a = 0 then None
         else case lu_solve n (eliminate a r rest)
                     (map2 (\<lambda>row bi. bi - hd row / a * hd b') rest (tl b')) of
                None \<Rightarrow> None
              | Some x' \<Rightarrow> Some ((hd b' - dot r x') / a # x'))"

definition unit_vec :: "nat \<Rightarrow> nat \<Rightarrow> vec" where
  "unit_vec n j = map (\<lambda>i. if i = j then 1 else 0) [0..<n]"

definition jnp_linalg_inv :: "mat \<Rightarrow> mat option" where
  "jnp_linalg_inv M =
     (let n = length M in
      case those (map (\<lambda>j. lu_solve n M (unit_vec n j)) [0..<n]) of
        None \<Rightarrow> None
      | Some cols \<Rightarrow> Some (map (\<lambda>i. map (\<lambda>c. c ! i) cols) [0..<n]))"

subsection \<open>The contraction \<^verbatim>\<open>phi.T @ K_inv @ f_X\<close>\<close>

text \<open>
  \<open>phi\<close> is a vector, so \<^verbatim>\<open>phi.T\<close> is \<open>phi\<close>; \<^verbatim>\<open>@\<close> associates to the left:
  first the vector-matrix product, then the dot product with \<open>f_X\<close>, a 0-d array
  (\<^verbatim>\<open>.squeeze()\<close>, where a variant applies it, leaves a 0-d array as it is).
  \<open>K_inv\<close> is \<open>N \<times> N\<close>; each \<^verbatim>\<open>@\<close> raises when the contracted lengths differ,
  whatever the entries are; non-finite entries of \<open>K_inv\<close> give a non-finite result.
\<close>

definition vecmat :: "vec \<Rightarrow> mat \<Rightarrow> vec" where
  "vecmat u M = map (\<lambda>j. dot u (map (\<lambda>r. r ! j) M)) [0..<ncols M]"

definition contract :: "nat \<Rightarrow> vec \<Rightarrow> mat option \<Rightarrow> vec \<Rightarrow> error + flt" where
  "contract N phi K_inv f_X =
     (if length phi = N \<and> length f_X = N
      then case K_inv of
             None \<Rightarrow> Inr None
           | Some M \<Rightarrow> Inr (Some (dot (vecmat phi M) f_X))
      else Inl ContractShape)"

subsection \<open>The single-instance estimators\<close>

text \<open>
  Each function below is the source function of the same name, line by line. The kernel
  and the embedding it calls are its first two parameters. Where the length scale is
  NaN (the median of an array without entries) the kernel library would be called with
  NaN; the model stops there with a non-finite result.
\<close>

definition KQ_RBF_Gaussian ::
  "(mat \<Rightarrow> mat \<Rightarrow> real \<Rightarrow> mat) \<Rightarrow> ('m \<Rightarrow> 'c \<Rightarrow> real \<Rightarrow> mat \<Rightarrow> vec) \<Rightarrow>
   mat \<Rightarrow> vec \<Rightarrow> 'm \<Rightarrow> 'c \<Rightarrow> error + flt" where
  "KQ_RBF_Gaussian my_RBF kme_RBF_Gaussian X f_X mu_X_theta var_X_theta =
     (let N = length X; D = ncols X;
          eps = 1 / 10 ^ 6 in
      case jnp_median (jnp_abs (sub_rows X (mean0 X))) of
        None \<Rightarrow> Inr None
      | Some l \<Rightarrow>
          (let A = 1;
               K = smult A (my_RBF X X l) in
           case madd N K (smult eps (jnp_eye N)) of
             Inl e \<Rightarrow> Inl e
           | Inr K_reg \<Rightarrow>
               (let K_inv = jnp_linalg_inv K_reg;
                    phi = vsmult A (kme_RBF_Gaussian mu_X_theta var_X_theta l X);
                    I_NKQ = contract N phi K_inv f_X in
                I_NKQ)))"

definition KQ_RBF_Uniform ::
  "(mat \<Rightarrow> mat \<Rightarrow> real \<Rightarrow> mat) \<Rightarrow> ('a \<Rightarrow> 'b \<Rightarrow> real \<Rightarrow> mat \<Rightarrow> vec) \<Rightarrow>
   mat \<Rightarrow> vec \<Rightarrow> 'a \<Rightarrow> 'b \<Rightarrow> error + flt" where
  "KQ_RBF_Uniform my_RBF kme_RBF_uniform X f_X a b =
     (let N = length X; D = ncols X;
          eps = 1 / 10 ^ 6;
          A = 1 in
      case jnp_median (jnp_abs (sub_rows X (mean0 X))) of
        None \<Rightarrow> Inr None
      | Some l \<Rightarrow>
          (let K = smult A (my_RBF X X l) in
           case madd N K (smult eps (jnp_eye N)) of
             Inl e \<Rightarrow> Inl e
           | Inr K_reg \<Rightarrow>
               (let K_inv = jnp_linalg_inv K_reg;
                    phi = vsmult A (kme_RBF_uniform a b l X);
                    I_NKQ = contract N phi K_inv f_X in
                I_NKQ)))"

definition KQ_Matern_32_Gaussian ::
  "(mat \<Rightarrow> mat \<Rightarrow> real \<Rightarrow> mat) \<Rightarrow> (real \<Rightarrow> mat \<Rightarrow> vec) \<Rightarrow>
   mat \<Rightarrow> vec \<Rightarrow> error + flt" where
  "KQ_Matern_32_Gaussian my_Matern_32 kme_Matern_32_Gaussian X f_X =
     (let N = length X; D = ncols X;
          eps = 1 / 10 ^ 6;
          A = 1 in
      case jnp_median (jnp_abs (sub_rows X (mean0 X))) of
        None \<Rightarrow> Inr None
      | Some l \<Rightarrow>
          (let K = smult A (my_Matern_32 X X l) in
           case madd N K (smult eps (jnp_eye N)) of
             Inl e \<Rightarrow> Inl e
           | Inr K_reg \<Rightarrow>
               (let K_inv = jnp_linalg_inv K_reg;
                    phi = vsmult A (kme_Matern_32_Gaussian l X);
                    I_NKQ = contract N phi K_inv f_X in
                I_NKQ)))"

definition KQ_Matern_12_Gaussian ::
  "(mat \<Rightarrow> mat \<Rightarrow> vec \<Rightarrow> mat) \<Rightarrow> (vec \<Rightarrow> mat \<Rightarrow> vec) \<Rightarrow>
   mat \<Rightarrow> vec \<Rightarrow> error + flt" where
  "KQ_Matern_12_Gaussian my_Matern_12_product kme_Matern_12_Gaussian X f_X =
     (let N = length X; D = ncols X;
          eps = 1 / 10 ^ 6;
          A = 1;
          l = vsmult 1 (jnp_ones D);
          K = smult A (my_Matern_12_product X X l) in
      case madd N K (smult eps (jnp_eye N)) of
        Inl e \<Rightarrow> Inl e
      | Inr K_reg \<Rightarrow>
          (let K_inv = jnp_linalg_inv K_reg;
               phi = vsmult A (kme_Matern_12_Gaussian l X);
               I_NKQ = contract N phi K_inv f_X in
           I_NKQ))"

definition KQ_Matern_32_Uniform ::
  "(mat \<Rightarrow> mat \<Rightarrow> vec \<Rightarrow> mat) \<Rightarrow> ('a \<Rightarrow> 'b \<Rightarrow> vec \<Rightarrow> mat \<Rightarrow> vec) \<Rightarrow>
   mat \<Rightarrow> vec \<Rightarrow> 'a \<Rightarrow> 'b \<Rightarrow> error + flt" where
  "KQ_Matern_32_Uniform my_Matern_32_product kme_Matern_32_Uniform X f_X a b =
     (let N = length X; D = ncols X;
          eps = 1 / 10 ^ 6;
          A = 1;
          l = vsmult 3 (jnp_ones D);
          K = smult A (my_Matern_32_product X X l) in
      case madd N K (smult eps (jnp_eye N)) of
        Inl e \<Rightarrow> Inl e
      | Inr K_reg \<Rightarrow>
          (let K_inv = jnp_linalg_inv K_reg;
               phi = vsmult A (kme_Matern_32_Uniform a b l X);
               I_NKQ = contract N phi K_inv f_X in
           I_NKQ))"

definition KQ_Matern_12_Uniform ::
  "(mat \<Rightarrow> mat \<Rightarrow> real \<Rightarrow> mat) \<Rightarrow> ('a \<Rightarrow> 'b \<Rightarrow> real \<Rightarrow> mat \<Rightarrow> vec) \<Rightarrow>
   mat \<Rightarrow> vec \<Rightarrow> 'a \<Rightarrow> 'b \<Rightarrow> error + flt" where
  "KQ_Matern_12_Uniform my_Matern_12 kme_Matern_12_Uniform X f_X a b =
     (let N = length X; D = ncols X;
          eps = 1 / 10 ^ 6;
          A = 1 in
      case jnp_median (jnp_abs (sub_rows X (mean0 X))) of
        None \<Rightarrow> Inr None
      | Some l \<Rightarrow>
          (let K = smult A (my_Matern_12 X X l) in
           case madd N K (smult eps (jnp_eye N)) of
             Inl e \<Rightarrow> Inl e
           | Inr K_reg \<Rightarrow>
               (let K_inv = jnp_linalg_inv K_reg;
                    phi = vsmult A (kme_Matern_12_Uniform a b l X);
                    I_NKQ = contract N phi K_inv f_X in
                I_NKQ)))"

definition KQ_log_RBF_log_Gaussian ::
  "(mat \<Rightarrow> mat \<Rightarrow> real \<Rightarrow> mat) \<Rightarrow> ('a \<Rightarrow> 'b \<Rightarrow> mat \<Rightarrow> real \<Rightarrow> vec) \<Rightarrow>
   mat \<Rightarrow> vec \<Rightarrow> 'a \<Rightarrow> 'b \<Rightarrow> error + flt" where
  "KQ_log_RBF_log_Gaussian my_log_RBF kme_log_normal_log_RBF X f_X mu std =
     (let N = length X; D = ncols X;
          eps = 1 / 10 ^ 6;
          l = 1 / 10;
          A = 1;
          K = smult A (my_log_RBF X X l) in
      case madd N K (smult eps (jnp_eye N)) of
        Inl e \<Rightarrow> Inl e
      | Inr K_reg \<Rightarrow>
          (let K_inv = jnp_linalg_inv K_reg;
               phi = vsmult A (kme_log_normal_log_RBF mu std X l);
               I_NKQ = contract N phi K_inv f_X in
           I_NKQ))"

subsection \<open>\<^verbatim>\<open>jax.vmap\<close> and the vectorized wrappers\<close>

text \<open>
  The arguments of a vectorized wrapper are arrays of different ranks, so they share one
  type: an array is a scalar or the list of its slices along axis 0.
\<close>

datatype arr = Scal real | Arr "arr list"

fun scal_of :: "arr \<Rightarrow> real option" where
  "scal_of (Scal x) = Some x"
| "scal_of (Arr xs) = None"

fun vec_of :: "arr \<Rightarrow> vec option" where
  "vec_of (Scal x) = None"
| "vec_of (Arr xs) = those (map scal_of xs)"

fun mat_of :: "arr \<Rightarrow> mat option" where
  "mat_of (Scal x) = None"
| "mat_of (Arr xs) =
     (case those (map vec_of xs) of
        None \<Rightarrow> None
      | Some M \<Rightarrow> if is_mat (length M) (ncols M) M then Some M else None)"

text \<open>An entry of \<^verbatim>\<open>in_axes\<close>: \<^verbatim>\<open>None\<close> (the argument is passed whole) or \<^verbatim>\<open>0\<close>.\<close>

datatype axis = Whole | Axis0

fun take_axis :: "nat \<Rightarrow> axis \<Rightarrow> arr \<Rightarrow> arr" where
  "take_axis i Whole a = a"
| "take_axis i Axis0 (Arr xs) = xs ! i"
| "take_axis i Axis0 (Scal x) = Scal x"

fun axis_sizes :: "axis list \<Rightarrow> arr list \<Rightarrow> error + nat list" where
  "axis_sizes (Whole # axs) (a # as) = axis_sizes axs as"
| "axis_sizes (Axis0 # axs) (Scal x # as) = Inl AxisRank"
| "axis_sizes (Axis0 # axs) (Arr xs # as) =
     (case axis_sizes axs as of
        Inl e \<Rightarrow> Inl e
      | Inr ns \<Rightarrow> Inr (length xs # ns))"
| "axis_sizes axs as = Inr []"

fun collect :: "(error + 'a) list \<Rightarrow> error + 'a list" where
  "collect [] = Inr []"
| "collect (r # rs) =
     (case r of
        Inl e \<Rightarrow> Inl e
      | Inr v \<Rightarrow> (case collect rs of Inl e \<Rightarrow> Inl e | Inr vs \<Rightarrow> Inr (v # vs)))"

text \<open>
  \<^verbatim>\<open>jax.vmap(f, in_axes)(*args)\<close>. The call first compares the length of the tuple
  \<^verbatim>\<open>in_axes\<close> with the number of arguments, then finds the size \<open>T\<close> of the mapped axis
  (at least one argument is mapped, a mapped argument has an axis 0, all mapped arguments
  agree on its size), and returns the results of \<open>f\<close> on the \<open>T\<close> slices, stacked;
  an exception in \<open>f\<close> is an exception of the call. (A batch of size 0 gives the empty
  result here; the shapes of its slices are not represented.)
\<close>

definition vmap ::
  "(arr list \<Rightarrow> error + 'r) \<Rightarrow> axis list \<Rightarrow> arr list \<Rightarrow> error + 'r list" where
  "vmap f in_axes args =
     (if length in_axes \<noteq> length args
      then Inl (InAxesLength (length in_axes) (length args))
      else case axis_sizes in_axes args of
             Inl e \<Rightarrow> Inl e
           | Inr [] \<Rightarrow> Inl NoMappedAxis
           | Inr (T # ns) \<Rightarrow>
               if list_ex (\<lambda>n. n \<noteq> T) ns then Inl AxisSizes
               else collect
                      (map (\<lambda>i. f (map2 (take_axis i) in_axes args)) [0..<T]))"

text \<open>
  A Python function of two or of four positional parameters, called on a list of
  arguments; \<open>X\<close> is a matrix and \<open>f_X\<close> a vector, as the docstrings say.
\<close>

fun call2 :: "(mat \<Rightarrow> vec \<Rightarrow> error + 'r) \<Rightarrow> arr list \<Rightarrow> error + 'r" where
  "call2 g [X, f_X] =
     (case (mat_of X, vec_of f_X) of
        (Some Xm, Some fv) \<Rightarrow> g Xm fv
      | _ \<Rightarrow> Inl DocumentedShape)"
| "call2 g args = Inl Arity"

fun call4 ::
  "(mat \<Rightarrow> vec \<Rightarrow> arr \<Rightarrow> arr \<Rightarrow> error + 'r) \<Rightarrow> arr list \<Rightarrow> error + 'r" where
  "call4 g [X, f_X, p, q] =
     (case (mat_of X, vec_of f_X) of
        (Some Xm, Some fv) \<Rightarrow> g Xm fv p q
      | _ \<Rightarrow> Inl DocumentedShape)"
| "call4 g args = Inl Arity"

definition KQ_RBF_Gaussian_Vectorized ::
  "(mat \<Rightarrow> mat \<Rightarrow> real \<Rightarrow> mat) \<Rightarrow> (arr \<Rightarrow> arr \<Rightarrow> real \<Rightarrow> mat \<Rightarrow> vec) \<Rightarrow>
   arr \<Rightarrow> arr \<Rightarrow> arr \<Rightarrow> arr \<Rightarrow> error + flt list" where
  "KQ_RBF_Gaussian_Vectorized my_RBF kme_RBF_Gaussian X f_X mu_X_theta var_X_theta =
     (let vmap_func = vmap (call4 (KQ_RBF_Gaussian my_RBF kme_RBF_Gaussian))
                        [Whole, Axis0, Axis0, Axis0, Axis0] in
      vmap_func [X, f_X, mu_X_theta, var_X_theta])"

definition KQ_RBF_Uniform_Vectorized ::
  "(mat \<Rightarrow> mat \<Rightarrow> real \<Rightarrow> mat) \<Rightarrow> (arr \<Rightarrow> arr \<Rightarrow> real \<Rightarrow> mat \<Rightarrow> vec) \<Rightarrow>
   arr \<Rightarrow> arr \<Rightarrow> arr \<Rightarrow> arr \<Rightarrow> error + flt list" where
  "KQ_RBF_Uniform_Vectorized my_RBF kme_RBF_uniform X f_X a b =
     (let vmap_func = vmap (call4 (KQ_RBF_Uniform my_RBF kme_RBF_uniform))
                        [Axis0, Axis0, Whole, Whole] in
      vmap_func [X, f_X, a, b])"

definition KQ_Matern_32_Gaussian_Vectorized ::
  "(mat \<Rightarrow> mat \<Rightarrow> real \<Rightarrow> mat) \<Rightarrow> (real \<Rightarrow> mat \<Rightarrow> vec) \<Rightarrow>
   arr \<Rightarrow> arr \<Rightarrow> error + flt list" where
  "KQ_Matern_32_Gaussian_Vectorized my_Matern_32 kme_Matern_32_Gaussian X f_X =
     (let vmap_func = vmap (call2 (KQ_Matern_32_Gaussian my_Matern_32 kme_Matern_32_Gaussian))
                        [Whole, Axis0, Axis0] in
      vmap_func [X, f_X])"

definition KQ_Matern_12_Gaussian_Vectorized ::
  "(mat \<Rightarrow> mat \<Rightarrow> vec \<Rightarrow> mat) \<Rightarrow> (vec \<Rightarrow> mat \<Rightarrow> vec) \<Rightarrow>
   arr \<Rightarrow> arr \<Rightarrow> error + flt list" where
  "KQ_Matern_12_Gaussian_Vectorized my_Matern_12_product kme_Matern_12_Gaussian X f_X =
     (let vmap_func =
            vmap (call2 (KQ_Matern_12_Gaussian my_Matern_12_product kme_Matern_12_Gaussian))
              [Axis0, Axis0] in
      vmap_func [X, f_X])"

definition KQ_Matern_32_Uniform_Vectorized ::
  "(mat \<Rightarrow> mat \<Rightarrow> vec \<Rightarrow> mat) \<Rightarrow> (arr \<Rightarrow> arr \<Rightarrow> vec \<Rightarrow> mat \<Rightarrow> vec) \<Rightarrow>
   arr \<Rightarrow> arr \<Rightarrow> arr \<Rightarrow> arr \<Rightarrow> error + flt list" where
  "KQ_Matern_32_Uniform_Vectorized my_Matern_32_product kme_Matern_32_Uniform X f_X a b =
     (let vmap_func =
            vmap (call4 (KQ_Matern_32_Uniform my_Matern_32_product kme_Matern_32_Uniform))
              [Axis0, Axis0, Axis0, Axis0] in
      vmap_func [X, f_X, a, b])"

definition KQ_Matern_12_Uniform_Vectorized ::
  "(mat \<Rightarrow> mat \<Rightarrow> real \<Rightarrow> mat) \<Rightarrow> (arr \<Rightarrow> arr \<Rightarrow> real \<Rightarrow> mat \<Rightarrow> vec) \<Rightarrow>
   arr \<Rightarrow> arr \<Rightarrow> arr \<Rightarrow> arr \<Rightarrow> error + flt list" where
  "KQ_Matern_12_Uniform_Vectorized my_Matern_12 kme_Matern_12_Uniform X f_X a b =
     (let vmap_func = vmap (call4 (KQ_Matern_12_Uniform my_Matern_12 kme_Matern_12_Uniform))
                        [Axis0, Axis0, Whole, Whole] in
      vmap_func [X, f_X, a, b])"

definition KQ_log_RBF_log_Gaussian_Vectorized ::
  "(mat \<Rightarrow> mat \<Rightarrow> real \<Rightarrow> mat) \<Rightarrow> (arr \<Rightarrow> arr \<Rightarrow> mat \<Rightarrow> real \<Rightarrow> vec) \<Rightarrow>
   arr \<Rightarrow> arr \<Rightarrow> arr \<Rightarrow> arr \<Rightarrow> error + flt list" where
  "KQ_log_RBF_log_Gaussian_Vectorized my_log_RBF kme_log_normal_log_RBF X f_X mu std =
     (let vmap_func =
            vmap (call4 (KQ_log_RBF_log_Gaussian my_log_RBF kme_log_normal_log_RBF))
              [Axis0, Axis0, Axis0, Axis0] in
      vmap_func [X, f_X, mu, std])"

section \<open>The notions the properties are stated with\<close>

text \<open>
  All seven estimators end in the same lines of source, from \<^verbatim>\<open>K = A * kernel(X, X, l)\<close>
  to the \<^verbatim>\<open>return\<close>, and differ in the kernel, the embedding and the length scale
  only. \<open>KQ_tail N K_raw phi_raw f_X\<close> is those lines, for the matrix \<open>K_raw\<close> that
  the kernel returned and the vector \<open>phi_raw\<close> that the embedding returned.
\<close>

definition KQ_tail :: "nat \<Rightarrow> mat \<Rightarrow> vec \<Rightarrow> vec \<Rightarrow> error + flt" where
  "KQ_tail N K_raw phi_raw f_X =
     (case madd N (smult 1 K_raw) (smult (1 / 10 ^ 6) (jnp_eye N)) of
        Inl e \<Rightarrow> Inl e
      | Inr K_reg \<Rightarrow> contract N (vsmult 1 phi_raw) (jnp_linalg_inv K_reg) f_X)"

text \<open>
  The algorithm as the specification words it (steps 2 to 4 of its section 4.2, with the
  amplitude \<open>A = 1\<close>): the Gram matrix is \<open>A\<close> times the kernel matrix, \<open>1e-6\<close> is added
  on its diagonal, it is inverted; \<open>\<phi>\<close> is \<open>A\<close> times the embedding vector; the
  estimate is the scalar \<open>\<phi>\<^sup>T G\<^sup>-\<^sup>1 f_X\<close>, written out as the double sum.
\<close>

definition add_on_diagonal :: "real \<Rightarrow> mat \<Rightarrow> mat" where
  "add_on_diagonal c K = map (\<lambda>i. (K ! i)[i := K ! i ! i + c]) [0..<length K]"

definition spec_four_steps :: "nat \<Rightarrow> mat \<Rightarrow> vec \<Rightarrow> vec \<Rightarrow> error + flt" where
  "spec_four_steps N kernel_X_X embedding_X f_X =
     (let A = 1;
          GramMatrix = add_on_diagonal (1 / 10 ^ 6) (smult A kernel_X_X);
          GramMatrix_inv = jnp_linalg_inv GramMatrix;
          phi = vsmult A embedding_X
      in if is_mat N N kernel_X_X
         then if length phi = N \<and> length f_X = N
              then case GramMatrix_inv of
                     None \<Rightarrow> Inr None
                   | Some G \<Rightarrow>
                       Inr (Some (\<Sum>i = 0..<N. \<Sum>j = 0..<N. phi ! i * G ! i ! j * f_X ! j))
              else Inl ContractShape
         else Inl DocumentedShape)"

text \<open>
  The median heuristic as the specification words it (section 4.1): the median of
  \<open>|X\<^sub>i\<^sub>j - mean\<^sub>j|\<close> over all entries of the \<open>N \<times> D\<close> sample set, where \<open>mean\<^sub>j\<close> is the
  mean of column \<open>j\<close>; the median of \<open>n\<close> sorted values is the mean of the values at the
  positions \<open>(n - 1) div 2\<close> and \<open>n div 2\<close>.
\<close>

definition spec_median_heuristic :: "mat \<Rightarrow> flt" where
  "spec_median_heuristic X =
     (let N = length X; D = ncols X;
          deviations =
            concat (map (\<lambda>i. map (\<lambda>j. \<bar>X ! i ! j - (\<Sum>i' = 0..<N. X ! i' ! j) / real N\<bar>) [0..<D])
                      [0..<N]);
          s = sort deviations;
          n = length s
      in if n = 0 then None else Some ((s ! ((n - 1) div 2) + s ! (n div 2)) / 2))"

text \<open>
  \<^verbatim>\<open>c1 * f_X1 + c2 * f_X2\<close> for two vectors of one length, and the same combination
  of two results: an exception of either call is an exception, a non-finite operand
  gives a non-finite value.
\<close>

definition axpby :: "real \<Rightarrow> vec \<Rightarrow> real \<Rightarrow> vec \<Rightarrow> vec" where
  "axpby c1 f1 c2 f2 = map2 (+) (vsmult c1 f1) (vsmult c2 f2)"


text \<open>
  \<open>stacked T single batched\<close>: the batched call is the \<open>T\<close> single calls, stacked.
  Either it returns \<open>T\<close> values and the call on slice \<open>i\<close> returns the \<open>i\<close>-th of them,
  or it raises what the call on one of the slices raises.
\<close>

definition stacked :: "nat \<Rightarrow> (nat \<Rightarrow> error + 'r) \<Rightarrow> error + 'r list \<Rightarrow> bool" where
  "stacked T single batched =
     (case batched of
        Inr ys \<Rightarrow> length ys = T \<and> (\<forall>i<T. single i = Inr (ys ! i))
      | Inl e \<Rightarrow> (\<exists>i<T. single i = Inl e))"

text \<open>The product of a matrix and a vector; \<open>dot v (matvec M v)\<close> is the quadratic form.\<close>

definition matvec :: "mat \<Rightarrow> vec \<Rightarrow> vec" where
  "matvec M v = map (\<lambda>r. dot r v) M"

section \<open>Auxiliary facts\<close>

subsection \<open>Shapes and the regularized matrix\<close>

lemma is_mat_eye: "is_mat N N (smult c (jnp_eye N))"
  by (simp add: is_mat_def smult_def jnp_eye_def list_all_iff)

lemma smult_one: "smult 1 M = M"
  by (simp add: smult_def map_idI)

lemma vsmult_one: "vsmult 1 v = v"
  by (simp add: vsmult_def map_idI)

lemma is_mat_nth: "is_mat n m M \<Longrightarrow> i < n \<Longrightarrow> length (M ! i) = m"
  by (simp add: is_mat_def list_all_length)

lemma is_mat_length: "is_mat n m M \<Longrightarrow> length M = n"
  by (simp add: is_mat_def)

lemma eye_nth: "i < N \<Longrightarrow> j < N \<Longrightarrow> smult c (jnp_eye N) ! i ! j = (if i = j then c else 0)"
  by (simp add: smult_def jnp_eye_def)

lemma map2_add_eye:
  assumes "is_mat N N K"
  shows "map2 (map2 (+)) K (smult c (jnp_eye N)) = add_on_diagonal c K"
proof (rule nth_equalityI)
  show len: "length (map2 (map2 (+)) K (smult c (jnp_eye N))) = length (add_on_diagonal c K)"
    using assms by (simp add: add_on_diagonal_def is_mat_def smult_def jnp_eye_def)
  fix i assume "i < length (map2 (map2 (+)) K (smult c (jnp_eye N)))"
  then have i: "i < N" using assms by (simp add: is_mat_def smult_def jnp_eye_def)
  have li: "length (K ! i) = N" using assms i by (rule is_mat_nth)
  have lK: "length K = N" using assms by (rule is_mat_length)
  have le: "length (smult c (jnp_eye N) ! i) = N"
    using is_mat_nth [OF is_mat_eye i] .
  have lE: "length (smult c (jnp_eye N)) = N"
    using is_mat_length [OF is_mat_eye] .
  show "map2 (map2 (+)) K (smult c (jnp_eye N)) ! i = add_on_diagonal c K ! i"
  proof (rule nth_equalityI)
    show "length (map2 (map2 (+)) K (smult c (jnp_eye N)) ! i) = length (add_on_diagonal c K ! i)"
      using i li lK le lE by (simp add: add_on_diagonal_def)
    fix j assume "j < length (map2 (map2 (+)) K (smult c (jnp_eye N)) ! i)"
    then have j: "j < N" using i li lK le lE by simp
    show "map2 (map2 (+)) K (smult c (jnp_eye N)) ! i ! j = add_on_diagonal c K ! i ! j"
      using i j li lK le lE eye_nth [OF i j, of c]
      by (simp add: add_on_diagonal_def nth_list_update)
  qed
qed

lemma madd_eye:
  "madd N K (smult c (jnp_eye N)) =
     (if is_mat N N K then Inr (add_on_diagonal c K) else Inl DocumentedShape)"
  by (simp add: madd_def is_mat_eye map2_add_eye)

subsection \<open>Dot products\<close>

lemma dot_Cons: "dot (x # xs) (y # ys) = x * y + dot xs ys"
  by (simp add: dot_def)

lemma dot_zero_left: "dot (replicate n 0) v = 0"
proof (induction n arbitrary: v)
  case 0
  show ?case by (simp add: dot_def)
next
  case (Suc n)
  from Suc [of "tl v"] show ?case by (cases v) (simp_all add: dot_def)
qed

lemma dot_zero_right: "dot v (replicate n 0) = 0"
proof (induction v arbitrary: n)
  case Nil
  show ?case by (simp add: dot_def)
next
  case (Cons a v)
  from Cons [of "n - 1"] show ?case by (cases n) (simp_all add: dot_def)
qed

subsection \<open>The pivot and the exchange of rows\<close>

lemma argmax_abs_less: "xs \<noteq> [] \<Longrightarrow> argmax_abs xs < length xs"
  by (induction xs rule: argmax_abs.induct) (auto simp: Let_def)

lemma argmax_abs_greatest: "i < length xs \<Longrightarrow> \<bar>xs ! i\<bar> \<le> \<bar>xs ! argmax_abs xs\<bar>"
proof (induction xs arbitrary: i rule: argmax_abs.induct)
  case 1
  then show ?case by simp
next
  case (2 x xs)
  show ?case
  proof (cases "xs = []")
    case True
    with "2.prems" show ?thesis by simp
  next
    case False
    show ?thesis
    proof (cases i)
      case 0
      with False show ?thesis by (simp add: Let_def)
    next
      case (Suc k)
      with "2.prems" have "k < length xs" by simp
      from "2.IH" [OF False this] Suc False show ?thesis
        by (auto simp: Let_def)
    qed
  qed
qed

lemma length_swap_rows: "length (swap_rows p xs) = length xs"
  by (simp add: swap_rows_def)

lemma set_swap_rows: "p < length xs \<Longrightarrow> set (swap_rows p xs) = set xs"
proof -
  assume p: "p < length xs"
  then have "0 < length xs" by auto
  from set_swap [OF this p] show ?thesis by (simp add: swap_rows_def)
qed

lemma map_swap_rows: "p < length xs \<Longrightarrow> map f (swap_rows p xs) = swap_rows p (map f xs)"
proof -
  assume p: "p < length xs"
  then have "0 < length xs" by auto
  with p show ?thesis by (simp add: swap_rows_def map_update)
qed

lemma swap_rows_twice: "p < length xs \<Longrightarrow> swap_rows p (swap_rows p xs) = xs"
proof -
  assume p: "p < length xs"
  then have z: "0 < length xs" by auto
  show ?thesis
    unfolding swap_rows_def
    using p z by (intro nth_equalityI) (auto simp: nth_list_update)
qed

lemma swap_rows_replicate: "p < n \<Longrightarrow> swap_rows p (replicate n x) = replicate n x"
  unfolding swap_rows_def
  by (intro nth_equalityI) (auto simp: nth_list_update)

lemma hd_swap_rows: "p < length xs \<Longrightarrow> hd (swap_rows p xs) = xs ! p"
proof -
  assume p: "p < length xs"
  then have z: "0 < length xs" by auto
  then have "swap_rows p xs \<noteq> []" by (simp add: swap_rows_def)
  then have "hd (swap_rows p xs) = swap_rows p xs ! 0" by (rule hd_conv_nth)
  also have "\<dots> = xs ! p" using p z by (auto simp: swap_rows_def nth_list_update)
  finally show ?thesis .
qed

lemma is_mat_swap_rows:
  assumes "is_mat n m M" "p < n"
  shows "is_mat n m (swap_rows p M)"
  using assms by (simp add: is_mat_def length_swap_rows list_all_iff set_swap_rows)

lemma matvec_swap_rows: "p < length M \<Longrightarrow> matvec (swap_rows p M) v = swap_rows p (matvec M v)"
  by (simp add: matvec_def map_swap_rows)

subsection \<open>One step of the elimination\<close>

lemma is_mat_Suc_decompose:
  assumes "is_mat (Suc n) (Suc n) M"
  obtains a r rest where "M = (a # r) # rest" "length r = n" "length rest = n"
    "list_all (\<lambda>row. length row = Suc n) rest"
proof -
  from assms obtain row0 rest where M: "M = row0 # rest" "length rest = n"
    by (cases M) (auto simp: is_mat_def)
  with assms have l0: "length row0 = Suc n" and rows: "list_all (\<lambda>row. length row = Suc n) rest"
    by (simp_all add: is_mat_def)
  from l0 obtain a r where "row0 = a # r" "length r = n" by (cases row0) auto
  with M rows that show thesis by blast
qed

lemma is_mat_eliminate:
  assumes "length r = n" "length rest = n" "list_all (\<lambda>row. length row = Suc n) rest"
  shows "is_mat n n (eliminate a r rest)"
  using assms by (auto simp: is_mat_def eliminate_def list_all_iff)

lemma rows_nonempty:
  "list_all (\<lambda>row. length row = Suc n) rest \<Longrightarrow> list_all (\<lambda>row. row \<noteq> []) rest"
  by (auto simp: list_all_iff)

lemma dot_eliminated_row:
  "length r = length m \<Longrightarrow> dot (map2 (\<lambda>rj mj. mj - k * rj) r m) v = dot m v - k * dot r v"
proof (induction r arbitrary: m v)
  case Nil
  then show ?case by (simp add: dot_def)
next
  case (Cons a r)
  then obtain b m' where m: "m = b # m'" "length r = length m'" by (cases m) auto
  show ?case
  proof (cases v)
    case Nil
    then show ?thesis by (simp add: dot_def)
  next
    case (Cons c v')
    with Cons.IH [OF m(2), of v'] m show ?thesis
      by (simp add: dot_Cons algebra_simps)
  qed
qed

lemma matvec_Cons_rows:
  assumes "list_all (\<lambda>row. row \<noteq> []) rest"
  shows "matvec rest (t # v) = map (\<lambda>row. hd row * t + dot (tl row) v) rest"
  unfolding matvec_def
proof (rule map_cong [OF refl])
  fix row assume "row \<in> set rest"
  with assms have "row \<noteq> []" by (simp add: list_all_iff)
  then obtain c m where "row = c # m" by (cases row) auto
  then show "dot row (t # v) = hd row * t + dot (tl row) v" by (simp add: dot_Cons)
qed

lemma matvec_eliminate:
  assumes "list_all (\<lambda>row. length row = Suc (length r)) rest"
  shows "matvec (eliminate a r rest) v = map (\<lambda>row. dot (tl row) v - hd row / a * dot r v) rest"
  unfolding matvec_def eliminate_def map_map comp_def
proof (rule map_cong [OF refl])
  fix row assume "row \<in> set rest"
  with assms have "length row = Suc (length r)" by (simp add: list_all_iff)
  then have "length r = length (tl row)" by simp
  then show "dot (map2 (\<lambda>rj mj. mj - hd row / a * rj) r (tl row)) v
           = dot (tl row) v - hd row / a * dot r v"
    by (rule dot_eliminated_row)
qed

lemma matvec_pivot_block:
  assumes "list_all (\<lambda>row. length row = Suc n) rest"
  shows "matvec ((a # r) # rest) (t # v)
       = (a * t + dot r v) # map (\<lambda>row. hd row * t + dot (tl row) v) rest"
proof -
  have "matvec ((a # r) # rest) (t # v) = (a * t + dot r v) # matvec rest (t # v)"
    by (simp add: matvec_def dot_Cons)
  then show ?thesis
    by (simp only: matvec_Cons_rows [OF rows_nonempty [OF assms]])
qed

subsection \<open>The solver is sound and complete\<close>

lemma pivot_less:
  assumes "is_mat (Suc n) (Suc n) M"
  shows "argmax_abs (map hd M) < length M"
proof -
  from assms have "map hd M \<noteq> []" by (auto simp: is_mat_def)
  from argmax_abs_less [OF this] show ?thesis by simp
qed


lemma matvec_first_unit:
  assumes "list_all (\<lambda>row. length row = Suc n) M"
  shows "matvec M (1 # replicate n 0) = map hd M"
  using matvec_Cons_rows [OF rows_nonempty [OF assms], of 1 "replicate n 0"]
  by (simp add: dot_zero_right)

lemma lu_solve_complete:
  assumes "is_mat n n M" "length b = n"
    and "\<forall>v. length v = n \<longrightarrow> matvec M v = replicate n 0 \<longrightarrow> v = replicate n 0"
  shows "\<exists>x. lu_solve n M b = Some x"
  using assms
proof (induction n arbitrary: M b)
  case 0
  show ?case by simp
next
  case (Suc n)
  define p where "p = argmax_abs (map hd M)"
  have p: "p < length M" unfolding p_def using Suc.prems(1) by (rule pivot_less)
  have lM: "length M = Suc n" using Suc.prems(1) by (rule is_mat_length)
  have rowsM: "list_all (\<lambda>row. length row = Suc n) M" using Suc.prems(1) by (simp add: is_mat_def)
  have "is_mat (Suc n) (Suc n) (swap_rows p M)"
    using Suc.prems(1) p lM by (intro is_mat_swap_rows) simp_all
  then obtain a r rest where M': "swap_rows p M = (a # r) # rest" and r: "length r = n"
    and rest: "length rest = n" and rows: "list_all (\<lambda>row. length row = Suc n) rest"
    by (rule is_mat_Suc_decompose)
  have "length (swap_rows p b) = Suc n" using Suc.prems(2) by (simp add: length_swap_rows)
  then obtain b0 bt where b': "swap_rows p b = b0 # bt" and bt: "length bt = n"
    by (cases "swap_rows p b") auto
  have rows': "list_all (\<lambda>row. length row = Suc (length r)) rest" using rows r by simp
  have kernel: "v = replicate (Suc n) 0" if "length v = Suc n" "matvec M v = replicate (Suc n) 0" for v
    using Suc.prems(3) that by blast
  have a_eq: "a = map hd M ! p"
  proof -
    from hd_swap_rows [OF p] M' have "M ! p = a # r" by simp
    with p show ?thesis by simp
  qed
  have a: "a \<noteq> 0"
  proof
    assume "a = 0"
    have "map hd M ! i = 0" if "i < Suc n" for i
    proof -
      from that lM have "i < length (map hd M)" by simp
      from argmax_abs_greatest [OF this] have "\<bar>map hd M ! i\<bar> \<le> \<bar>a\<bar>"
        by (simp only: a_eq p_def)
      with \<open>a = 0\<close> show ?thesis by simp
    qed
    then have "map hd M = replicate (Suc n) 0"
      using lM by (intro nth_equalityI) (simp_all del: replicate_Suc)
    then have "matvec M (1 # replicate n 0) = replicate (Suc n) 0"
      by (simp only: matvec_first_unit [OF rowsM])
    from kernel [OF _ this] show False by simp
  qed
  define b'' where "b'' = map2 (\<lambda>row bi. bi - hd row / a * b0) rest bt"
  have shape: "is_mat n n (eliminate a r rest)" using r rest rows by (rule is_mat_eliminate)
  have lb'': "length b'' = n" using rest bt by (simp add: b''_def)
  have sub_kernel: "\<forall>v. length v = n \<longrightarrow> matvec (eliminate a r rest) v = replicate n 0
      \<longrightarrow> v = replicate n 0"
  proof (intro allI impI)
    fix v :: vec assume v: "length v = n" "matvec (eliminate a r rest) v = replicate n 0"
    define t where "t = - dot r v / a"
    have first: "a * t + dot r v = 0" using a by (simp add: t_def)
    have "map (\<lambda>row. hd row * t + dot (tl row) v) rest = matvec (eliminate a r rest) v"
      unfolding matvec_eliminate [OF rows']
      by (rule map_cong [OF refl]) (simp add: t_def)
    with v(2) have tail: "map (\<lambda>row. hd row * t + dot (tl row) v) rest = replicate n 0" by simp
    have "matvec (swap_rows p M) (t # v) = replicate (Suc n) 0"
      by (simp only: M' matvec_pivot_block [OF rows] first tail replicate_Suc)
    then have "swap_rows p (matvec M (t # v)) = replicate (Suc n) 0"
      using p by (simp only: matvec_swap_rows)
    then have "swap_rows p (swap_rows p (matvec M (t # v))) = swap_rows p (replicate (Suc n) 0)"
      by simp
    moreover have "p < length (matvec M (t # v))" using p by (simp add: matvec_def)
    moreover have "p < Suc n" using p lM by simp
    ultimately have "matvec M (t # v) = replicate (Suc n) 0"
      by (simp only: swap_rows_twice swap_rows_replicate)
    from kernel [OF _ this] v(1) show "v = replicate n 0" by simp
  qed
  from Suc.IH [OF shape lb'' sub_kernel] obtain x' where
    "lu_solve n (eliminate a r rest) b'' = Some x'" by blast
  with a show ?case
    by (simp add: Let_def p_def [symmetric] M' b' b''_def)
qed

subsection \<open>The inverse\<close>

lemma those_Some_nth:
  "those xs = Some ys \<Longrightarrow> length ys = length xs \<and> (\<forall>i<length xs. xs ! i = Some (ys ! i))"
proof (induction xs arbitrary: ys)
  case Nil
  then show ?case by simp
next
  case (Cons x xs)
  then obtain y zs where x: "x = Some y" and t: "those xs = Some zs" and ys: "ys = y # zs"
    by (auto split: option.splits)
  from Cons.IH [OF t] show ?case
    using x ys by (auto simp: nth_Cons split: nat.splits)
qed

lemma those_all_Some:
  "(\<forall>x\<in>set xs. \<exists>y. x = Some y) \<Longrightarrow> \<exists>ys. those xs = Some ys"
  by (induction xs) auto

lemma inv_shape:
  assumes "jnp_linalg_inv M = Some G"
  shows "is_mat (length M) (length M) G"
proof -
  from assms obtain cols where
    c: "those (map (\<lambda>j. lu_solve (length M) M (unit_vec (length M) j)) [0..<length M]) = Some cols"
    and G: "G = map (\<lambda>i. map (\<lambda>c. c ! i) cols) [0..<length M]"
    by (auto simp: jnp_linalg_inv_def Let_def split: option.splits)
  from those_Some_nth [OF c] have "length cols = length M" by simp
  then show ?thesis by (simp add: G is_mat_def list_all_iff)
qed

lemma length_unit_vec: "length (unit_vec n j) = n"
  by (simp add: unit_vec_def)


lemma inv_exists:
  assumes M: "is_mat n n M"
    and kernel: "\<forall>v. length v = n \<longrightarrow> matvec M v = replicate n 0 \<longrightarrow> v = replicate n 0"
  shows "\<exists>B. jnp_linalg_inv M = Some B"
proof -
  have lM: "length M = n" using M by (rule is_mat_length)
  have "\<forall>x\<in>set (map (\<lambda>j. lu_solve n M (unit_vec n j)) [0..<n]). \<exists>y. x = Some y"
    using lu_solve_complete [OF M length_unit_vec kernel] by auto
  from those_all_Some [OF this] show ?thesis
    by (auto simp: jnp_linalg_inv_def Let_def lM)
qed

lemma inv_one_by_one: "x \<noteq> 0 \<Longrightarrow> jnp_linalg_inv [[x]] = Some [[1 / x]]"
  by (simp add: jnp_linalg_inv_def unit_vec_def swap_rows_def eliminate_def dot_def)

lemma inv_one_by_one_zero: "jnp_linalg_inv [[0]] = None"
  by (simp add: jnp_linalg_inv_def unit_vec_def swap_rows_def eliminate_def dot_def)

subsection \<open>The contraction as a double sum\<close>

lemma dot_sum: "length u = length v \<Longrightarrow> dot u v = (\<Sum>i = 0..<length u. u ! i * v ! i)"
proof -
  assume l: "length u = length v"
  have "dot u v = sum_list (map (\<lambda>i. u ! i * v ! i) [0..<length u])"
    unfolding dot_def
    by (rule arg_cong [where f = sum_list], rule nth_equalityI) (use l in auto)
  also have "\<dots> = (\<Sum>i = 0..<length u. u ! i * v ! i)"
    by (simp add: interv_sum_list_conv_sum_set_nat)
  finally show ?thesis .
qed

lemma ncols_is_mat: "is_mat n n M \<Longrightarrow> ncols M = n"
  by (cases M) (auto simp: ncols_def is_mat_def)

lemma vecmat_nth:
  assumes "is_mat n n M" "length u = n" "j < n"
  shows "vecmat u M ! j = (\<Sum>i = 0..<n. u ! i * M ! i ! j)"
proof -
  have "vecmat u M ! j = dot u (map (\<lambda>r. r ! j) M)"
    using assms by (simp add: vecmat_def ncols_is_mat)
  also have "\<dots> = (\<Sum>i = 0..<n. u ! i * map (\<lambda>r. r ! j) M ! i)"
    using assms by (subst dot_sum) (simp_all add: is_mat_def)
  also have "\<dots> = (\<Sum>i = 0..<n. u ! i * M ! i ! j)"
    using assms by (intro sum.cong) (simp_all add: is_mat_def)
  finally show ?thesis .
qed

lemma contraction_double_sum:
  assumes "is_mat n n M" "length u = n" "length f = n"
  shows "dot (vecmat u M) f = (\<Sum>i = 0..<n. \<Sum>j = 0..<n. u ! i * M ! i ! j * f ! j)"
proof -
  have l: "length (vecmat u M) = n"
    using assms by (simp add: vecmat_def ncols_is_mat)
  have "dot (vecmat u M) f = (\<Sum>j = 0..<n. vecmat u M ! j * f ! j)"
    using l assms by (subst dot_sum) simp_all
  also have "\<dots> = (\<Sum>j = 0..<n. \<Sum>i = 0..<n. u ! i * M ! i ! j * f ! j)"
    using assms by (intro sum.cong refl) (simp add: vecmat_nth sum_distrib_right)
  also have "\<dots> = (\<Sum>i = 0..<n. \<Sum>j = 0..<n. u ! i * M ! i ! j * f ! j)"
    by (rule sum.swap)
  finally show ?thesis .
qed

lemma length_add_on_diagonal: "length (add_on_diagonal c K) = length K"
  by (simp add: add_on_diagonal_def)

lemma KQ_tail_spec: "KQ_tail N K phi f = spec_four_steps N K phi f"
proof (cases "is_mat N N K")
  case False
  then show ?thesis
    by (simp add: KQ_tail_def spec_four_steps_def madd_eye smult_one Let_def)
next
  case True
  then have lK: "length K = N" by (rule is_mat_length)
  show ?thesis
  proof (cases "length phi = N \<and> length f = N")
    case False
    with \<open>is_mat N N K\<close> show ?thesis
      by (auto simp: KQ_tail_def spec_four_steps_def madd_eye smult_one vsmult_one
          contract_def Let_def)
  next
    case True
    show ?thesis
    proof (cases "jnp_linalg_inv (add_on_diagonal (1 / 10 ^ 6) K)")
      case None
      with True \<open>is_mat N N K\<close> show ?thesis
        by (simp add: KQ_tail_def spec_four_steps_def madd_eye smult_one vsmult_one
            contract_def Let_def)
    next
      case (Some G)
      from inv_shape [OF Some] lK have "is_mat N N G"
        by (simp add: length_add_on_diagonal)
      with True have "dot (vecmat phi G) f = (\<Sum>i = 0..<N. \<Sum>j = 0..<N. phi ! i * G ! i ! j * f ! j)"
        by (intro contraction_double_sum) simp_all
      with Some True \<open>is_mat N N K\<close> show ?thesis
        by (simp add: KQ_tail_def spec_four_steps_def madd_eye smult_one vsmult_one
            contract_def Let_def)
    qed
  qed
qed

subsection \<open>Linearity of the contraction, and a single sample point\<close>


lemma dot_axpby:
  "length f1 = length f2 \<Longrightarrow>
   dot u (axpby c1 f1 c2 f2) = c1 * dot u f1 + c2 * dot u f2"
proof (induction u arbitrary: f1 f2)
  case Nil
  then show ?case by (simp add: dot_def)
next
  case (Cons a u)
  show ?case
  proof (cases f1)
    case Nil
    with Cons.prems show ?thesis by (simp add: dot_def axpby_def vsmult_def)
  next
    case (Cons x xs)
    with Cons.prems obtain y ys where f2: "f2 = y # ys" "length xs = length ys"
      by (cases f2) auto
    from Cons.IH [OF f2(2)] have "dot u (axpby c1 xs c2 ys) = c1 * dot u xs + c2 * dot u ys" .
    then show ?thesis using Cons f2
      by (simp add: dot_def axpby_def vsmult_def algebra_simps)
  qed
qed



lemma KQ_tail_one:
  "KQ_tail (Suc 0) [[kv]] [ev] [f0] =
     (if 1 * kv + 1 / 10 ^ 6 = 0 then Inr None
      else Inr (Some ((1 * ev / (1 * kv + 1 / 10 ^ 6)) * f0)))"
proof (cases "kv + 1 / 10 ^ 6 = 0")
  case True
  then show ?thesis
    by (simp add: KQ_tail_def madd_def is_mat_def smult_def jnp_eye_def contract_def
        inv_one_by_one_zero vsmult_def)
next
  case False
  then show ?thesis
    by (simp add: KQ_tail_def madd_def is_mat_def smult_def jnp_eye_def contract_def
        inv_one_by_one vsmult_def vecmat_def ncols_def dot_def)
qed

subsection \<open>The median heuristic\<close>

lemma ncols_replicate: "0 < N \<Longrightarrow> ncols (replicate N r) = length r"
  by (cases N) (simp_all add: ncols_def)

lemma mean0_replicate:
  assumes "0 < N"
  shows "mean0 (replicate N r) = r"
proof -
  have "sum_list (map (\<lambda>r. r ! j) (replicate N r)) / real N = r ! j" for j
    using assms by (simp add: sum_list_replicate)
  then have "mean0 (replicate N r) = map (\<lambda>j. r ! j) [0..<length r]"
    using assms by (simp add: mean0_def ncols_replicate)
  then show ?thesis by (simp add: map_nth)
qed

lemma sub_rows_self: "sub_rows (replicate N r) r = replicate N (replicate (length r) 0)"
proof -
  have "map2 (-) r r = replicate (length r) 0"
    by (induction r) simp_all
  then show ?thesis by (simp add: sub_rows_def)
qed

lemma median_list_zeros:
  assumes "0 < n"
  shows "median_list (replicate n 0) = Some 0"
proof -
  have s: "sort (replicate n (0::real)) = replicate n 0"
    by (rule sorted_sort_id) (simp add: sorted_replicate)
  have "n div 2 < n" "n div 2 - 1 < n" using assms by simp_all
  then show ?thesis using assms by (simp add: median_list_def s Let_def)
qed

lemma median_identical_points:
  assumes "0 < N" "r \<noteq> []"
  shows "jnp_median (jnp_abs (sub_rows (replicate N r) (mean0 (replicate N r)))) = Some 0"
proof -
  have "concat (jnp_abs (replicate N (replicate (length r) 0))) = replicate (N * length r) 0"
    by (induction N) (simp_all add: jnp_abs_def replicate_add)
  moreover have "0 < N * length r" using assms by simp
  ultimately show ?thesis
    using assms by (simp add: jnp_median_def mean0_replicate sub_rows_self median_list_zeros)
qed

lemma odd_half: "odd (n::nat) \<Longrightarrow> (n - 1) div 2 = n div 2"
  by (elim oddE) simp

lemma even_half: "even (n::nat) \<Longrightarrow> 0 < n \<Longrightarrow> (n - 1) div 2 = n div 2 - 1"
  by (elim evenE) (cases n, auto)

lemma median_list_middle:
  "median_list xs =
     (let s = sort xs; n = length s
      in if n = 0 then None else Some ((s ! ((n - 1) div 2) + s ! (n div 2)) / 2))"
proof (cases "length xs = 0")
  case True
  then show ?thesis by (simp add: median_list_def)
next
  case False
  show ?thesis
  proof (cases "odd (length xs)")
    case True
    then have "(length xs - 1) div 2 = length xs div 2"
      by (rule odd_half)
    with True False show ?thesis by (simp add: median_list_def Let_def)
  next
    case even: False
    with False have "(length xs - 1) div 2 = length xs div 2 - 1"
      by (intro even_half) simp_all
    with even False show ?thesis by (simp add: median_list_def Let_def)
  qed
qed

lemma mean0_nth:
  assumes "j < ncols X"
  shows "mean0 X ! j = (\<Sum>i = 0..<length X. X ! i ! j) / real (length X)"
proof -
  have "sum_list (map (\<lambda>r. r ! j) X) = (\<Sum>i = 0..<length X. X ! i ! j)"
    by (simp add: sum_list_sum_nth)
  then show ?thesis using assms by (simp add: mean0_def)
qed

lemma deviations_rows:
  assumes "is_mat (length X) (ncols X) X"
  shows "jnp_abs (sub_rows X (mean0 X)) =
         map (\<lambda>i. map (\<lambda>j. \<bar>X ! i ! j - (\<Sum>i' = 0..<length X. X ! i' ! j) / real (length X)\<bar>)
                    [0..<ncols X]) [0..<length X]"
proof (rule nth_equalityI)
  show "length (jnp_abs (sub_rows X (mean0 X))) =
        length (map (\<lambda>i. map (\<lambda>j. \<bar>X ! i ! j - (\<Sum>i' = 0..<length X. X ! i' ! j) / real (length X)\<bar>)
                    [0..<ncols X]) [0..<length X])"
    by (simp add: jnp_abs_def sub_rows_def)
  fix i assume "i < length (jnp_abs (sub_rows X (mean0 X)))"
  then have i: "i < length X" by (simp add: jnp_abs_def sub_rows_def)
  have li: "length (X ! i) = ncols X" using assms i by (rule is_mat_nth)
  have lm: "length (mean0 X) = ncols X" by (simp add: mean0_def)
  show "jnp_abs (sub_rows X (mean0 X)) ! i =
        map (\<lambda>i. map (\<lambda>j. \<bar>X ! i ! j - (\<Sum>i' = 0..<length X. X ! i' ! j) / real (length X)\<bar>)
                    [0..<ncols X]) [0..<length X] ! i"
    using i li lm
    by (intro nth_equalityI) (simp_all add: jnp_abs_def sub_rows_def mean0_nth)
qed

lemma median_heuristic_spec:
  assumes "is_mat (length X) (ncols X) X"
  shows "jnp_median (jnp_abs (sub_rows X (mean0 X))) = spec_median_heuristic X"
  by (simp only: jnp_median_def deviations_rows [OF assms] median_list_middle
      spec_median_heuristic_def Let_def)

subsection \<open>Stacking the results of the slices\<close>

lemma collect_Inr: "collect (map Inr vs) = Inr vs"
  by (induction vs) simp_all

lemma collect_values:
  assumes "\<forall>i<n. g i = Inr (v i)"
  shows "collect (map g [0..<n]) = Inr (map v [0..<n])"
proof -
  have "map g [0..<n] = map Inr (map v [0..<n])"
    using assms by simp
  then show ?thesis by (simp only: collect_Inr)
qed

lemma collect_Inl_iff: "collect rs = Inl e \<Longrightarrow> Inl e \<in> set rs"
  by (induction rs) (auto split: sum.splits)

lemma collect_Inr_nth:
  "collect rs = Inr vs \<Longrightarrow> length vs = length rs \<and> (\<forall>i<length rs. rs ! i = Inr (vs ! i))"
proof (induction rs arbitrary: vs)
  case Nil
  then show ?case by simp
next
  case (Cons r rs)
  then obtain v ws where r: "r = Inr v" and c: "collect rs = Inr ws" and vs: "vs = v # ws"
    by (auto split: sum.splits)
  from Cons.IH [OF c] show ?case
    using r vs by (auto simp: nth_Cons split: nat.splits)
qed

lemma stacked_collect: "stacked T g (collect (map g [0..<T]))"
proof (cases "collect (map g [0..<T])")
  case (Inl e)
  from collect_Inl_iff [OF this] show ?thesis
    using Inl by (auto simp: stacked_def)
next
  case (Inr ys)
  from collect_Inr_nth [OF this] show ?thesis
    using Inr by (auto simp: stacked_def)
qed

lemma vmap_0_0_W_W:
  assumes "length Xs = T" "length Fs = T"
  shows "vmap g [Axis0, Axis0, Whole, Whole] [Arr Xs, Arr Fs, a, b] =
         collect (map (\<lambda>i. g [Xs ! i, Fs ! i, a, b]) [0..<T])"
  using assms by (simp add: vmap_def)

lemma vmap_0_0_0_0:
  assumes "length Xs = T" "length Fs = T" "length As = T" "length Bs = T"
  shows "vmap g [Axis0, Axis0, Axis0, Axis0] [Arr Xs, Arr Fs, Arr As, Arr Bs] =
         collect (map (\<lambda>i. g [Xs ! i, Fs ! i, As ! i, Bs ! i]) [0..<T])"
  using assms by (simp add: vmap_def)

lemma vmap_0_0:
  assumes "length Xs = T" "length Fs = T"
  shows "vmap g [Axis0, Axis0] [Arr Xs, Arr Fs] =
         collect (map (\<lambda>i. g [Xs ! i, Fs ! i]) [0..<T])"
  using assms by (simp add: vmap_def)

subsection \<open>Every estimator ends in the same lines\<close>

lemma KQ_RBF_Gaussian_steps:
  "KQ_RBF_Gaussian k e X f mu var =
     (case jnp_median (jnp_abs (sub_rows X (mean0 X))) of
        None \<Rightarrow> Inr None
      | Some l \<Rightarrow> KQ_tail (length X) (k X X l) (e mu var l X) f)"
  by (simp add: KQ_RBF_Gaussian_def KQ_tail_def Let_def split: option.split sum.split)

lemma KQ_RBF_Uniform_steps:
  "KQ_RBF_Uniform k e X f a b =
     (case jnp_median (jnp_abs (sub_rows X (mean0 X))) of
        None \<Rightarrow> Inr None
      | Some l \<Rightarrow> KQ_tail (length X) (k X X l) (e a b l X) f)"
  by (simp add: KQ_RBF_Uniform_def KQ_tail_def Let_def split: option.split sum.split)

lemma KQ_Matern_32_Gaussian_steps:
  "KQ_Matern_32_Gaussian k e X f =
     (case jnp_median (jnp_abs (sub_rows X (mean0 X))) of
        None \<Rightarrow> Inr None
      | Some l \<Rightarrow> KQ_tail (length X) (k X X l) (e l X) f)"
  by (simp add: KQ_Matern_32_Gaussian_def KQ_tail_def Let_def split: option.split sum.split)

lemma KQ_Matern_12_Uniform_steps:
  "KQ_Matern_12_Uniform k e X f a b =
     (case jnp_median (jnp_abs (sub_rows X (mean0 X))) of
        None \<Rightarrow> Inr None
      | Some l \<Rightarrow> KQ_tail (length X) (k X X l) (e a b l X) f)"
  by (simp add: KQ_Matern_12_Uniform_def KQ_tail_def Let_def split: option.split sum.split)

lemma KQ_Matern_12_Gaussian_steps:
  "KQ_Matern_12_Gaussian k e X f =
     KQ_tail (length X) (k X X (replicate (ncols X) 1)) (e (replicate (ncols X) 1) X) f"
  by (simp add: KQ_Matern_12_Gaussian_def KQ_tail_def Let_def vsmult_def jnp_ones_def
      split: sum.split)

lemma KQ_Matern_32_Uniform_steps:
  "KQ_Matern_32_Uniform k e X f a b =
     KQ_tail (length X) (k X X (replicate (ncols X) 3)) (e a b (replicate (ncols X) 3) X) f"
  by (simp add: KQ_Matern_32_Uniform_def KQ_tail_def Let_def vsmult_def jnp_ones_def
      split: sum.split)

lemma KQ_log_RBF_log_Gaussian_steps:
  "KQ_log_RBF_log_Gaussian k e X f mu std =
     KQ_tail (length X) (k X X (1 / 10)) (e mu std X (1 / 10)) f"
  by (simp add: KQ_log_RBF_log_Gaussian_def KQ_tail_def Let_def split: sum.split)

lemmas KQ_steps =
  KQ_RBF_Gaussian_steps KQ_RBF_Uniform_steps KQ_Matern_32_Gaussian_steps
  KQ_Matern_12_Uniform_steps KQ_Matern_12_Gaussian_steps KQ_Matern_32_Uniform_steps
  KQ_log_RBF_log_Gaussian_steps

subsection \<open>Quadratic forms\<close>

lemma dot_update:
  assumes "i < length r" "length r = length v"
  shows "dot (r[i := r ! i + c]) v = dot r v + c * v ! i"
proof -
  have "dot (r[i := r ! i + c]) v = (\<Sum>k = 0..<length r. r[i := r ! i + c] ! k * v ! k)"
    using assms by (subst dot_sum) simp_all
  also have "\<dots> = (\<Sum>k = 0..<length r. r ! k * v ! k + (if k = i then c * v ! i else 0))"
    by (intro sum.cong refl) (simp add: nth_list_update algebra_simps)
  also have "\<dots> = (\<Sum>k = 0..<length r. r ! k * v ! k) + c * v ! i"
    using assms by (simp add: sum.distrib)
  also have "\<dots> = dot r v + c * v ! i"
    using assms by (simp add: dot_sum)
  finally show ?thesis .
qed

lemma matvec_add_on_diagonal:
  assumes "is_mat N N K" "length v = N"
  shows "matvec (add_on_diagonal c K) v = map2 (+) (matvec K v) (vsmult c v)"
proof (rule nth_equalityI)
  have lK: "length K = N" using assms(1) by (rule is_mat_length)
  show "length (matvec (add_on_diagonal c K) v) = length (map2 (+) (matvec K v) (vsmult c v))"
    using assms lK by (simp add: matvec_def add_on_diagonal_def vsmult_def)
  fix i assume "i < length (matvec (add_on_diagonal c K) v)"
  then have i: "i < N" using lK by (simp add: matvec_def add_on_diagonal_def)
  have li: "length (K ! i) = N" using assms(1) i by (rule is_mat_nth)
  show "matvec (add_on_diagonal c K) v ! i = map2 (+) (matvec K v) (vsmult c v) ! i"
    using i li lK assms(2)
    by (simp add: matvec_def add_on_diagonal_def vsmult_def dot_update)
qed

lemma dot_vsmult: "dot u (vsmult c w) = c * dot u w"
proof (induction u arbitrary: w)
  case Nil
  show ?case by (simp add: dot_def)
next
  case (Cons a u)
  from Cons [of "tl w"] show ?case
    by (cases w) (simp_all add: dot_def vsmult_def algebra_simps)
qed

lemma dot_add:
  assumes "length a = length b"
  shows "dot u (map2 (+) a b) = dot u a + dot u b"
  using dot_axpby [OF assms, of u 1 1] by (simp add: axpby_def vsmult_one)

lemma dot_self_nonneg: "0 \<le> dot v v"
  by (induction v) (simp_all add: dot_def)

lemma dot_self_zero: "dot v v = 0 \<Longrightarrow> v = replicate (length v) 0"
proof (induction v)
  case Nil
  show ?case by simp
next
  case (Cons a v)
  have "0 \<le> dot v v" by (rule dot_self_nonneg)
  moreover from Cons.prems have "a * a + dot v v = 0" by (simp add: dot_def)
  moreover have "0 \<le> a * a" by simp
  ultimately have "a * a = 0" "dot v v = 0" by linarith+
  with Cons.IH show ?case by simp
qed

lemma quadratic_form_regularized:
  assumes "is_mat N N K" "length v = N"
  shows "dot v (matvec (add_on_diagonal c K) v) = dot v (matvec K v) + c * dot v v"
proof -
  have "length (matvec K v) = length (vsmult c v)"
    using assms by (simp add: matvec_def vsmult_def is_mat_def)
  then show ?thesis
    by (simp add: matvec_add_on_diagonal [OF assms] dot_add dot_vsmult)
qed

lemma regularized_bound:
  assumes "is_mat N N K" "\<forall>v. length v = N \<longrightarrow> 0 \<le> dot v (matvec K v)" "length v = N"
  shows "c * dot v v \<le> dot v (matvec (add_on_diagonal c K) v)"
  using quadratic_form_regularized [OF assms(1,3), of c] assms(2,3) by simp

lemma regularized_kernel_trivial:
  assumes "is_mat N N K" "\<forall>v. length v = N \<longrightarrow> 0 \<le> dot v (matvec K v)" "0 < c"
    and v: "length v = N" "matvec (add_on_diagonal c K) v = replicate N 0"
  shows "v = replicate N 0"
proof -
  from regularized_bound [OF assms(1,2) v(1), of c] v(2) have "c * dot v v \<le> 0"
    by (simp add: dot_zero_right)
  with \<open>0 < c\<close> have "dot v v \<le> 0"
    by (simp add: mult_le_0_iff)
  with dot_self_nonneg [of v] have "dot v v = 0" by simp
  from dot_self_zero [OF this] v(1) show ?thesis by simp
qed

text \<open>
  On a positive semidefinite kernel matrix the shared lines return a finite value: the
  inversion does not fail.
\<close>

lemma KQ_tail_finite_on_psd:
  assumes K: "is_mat N N K" and psd: "\<forall>v. length v = N \<longrightarrow> 0 \<le> dot v (matvec K v)"
    and "length phi = N" "length f_X = N"
  shows "\<exists>y. KQ_tail N K phi f_X = Inr (Some y)"
proof -
  have shape: "is_mat N N (add_on_diagonal (1 / 10 ^ 6) K)"
    using K by (simp add: add_on_diagonal_def is_mat_def list_all_length)
  have "\<forall>v. length v = N \<longrightarrow> matvec (add_on_diagonal (1 / 10 ^ 6) K) v = replicate N 0
      \<longrightarrow> v = replicate N 0"
    using regularized_kernel_trivial [OF K psd, of "1 / 10 ^ 6"] by simp
  from inv_exists [OF shape this] obtain B where
    "jnp_linalg_inv (add_on_diagonal (1 / 10 ^ 6) K) = Some B" by blast
  with assms show ?thesis
    by (simp add: KQ_tail_def madd_eye smult_one vsmult_one contract_def)
qed

lemma median_one_point: "jnp_median (jnp_abs (sub_rows [[5]] (mean0 [[5]]))) = Some 0"
  using median_identical_points [of 1 "[5]"] by simp

lemma median_other_point: "jnp_median (jnp_abs (sub_rows [[6]] (mean0 [[6]]))) = Some 0"
  using median_identical_points [of 1 "[6]"] by simp

text \<open>
  The wrappers of Matern-1/2--Gaussian and log-RBF--log-Gaussian stack the single calls
  as well.
\<close>

lemma other_wrappers_stack_single_calls:
  assumes "0 < T" "length Xs = T" "length Fs = T"
  shows
  "stacked T
     (\<lambda>i. call2 (KQ_Matern_12_Gaussian my_Matern_12_product kme_Matern_12_Gaussian)
        [Xs ! i, Fs ! i])
     (KQ_Matern_12_Gaussian_Vectorized my_Matern_12_product kme_Matern_12_Gaussian
        (Arr Xs) (Arr Fs))
   \<and> (length Ms = T \<and> length Ss = T \<longrightarrow>
        stacked T
          (\<lambda>i. call4 (KQ_log_RBF_log_Gaussian my_log_RBF kme_log_normal_log_RBF)
             [Xs ! i, Fs ! i, Ms ! i, Ss ! i])
          (KQ_log_RBF_log_Gaussian_Vectorized my_log_RBF kme_log_normal_log_RBF
             (Arr Xs) (Arr Fs) (Arr Ms) (Arr Ss)))"
  using assms
  by (simp add: KQ_Matern_12_Gaussian_Vectorized_def KQ_log_RBF_log_Gaussian_Vectorized_def
      vmap_0_0 vmap_0_0_0_0 stacked_collect)

section \<open>The claims\<close>

subsection \<open>The wrappers whose \<^verbatim>\<open>in_axes\<close> is too long\<close>

text \<open>
  Claim C2. \<^verbatim>\<open>KQ_RBF_Gaussian_Vectorized\<close> hands \<^verbatim>\<open>jax.vmap\<close> five axis entries for
  the four arguments of \<^verbatim>\<open>KQ_RBF_Gaussian\<close>, and \<^verbatim>\<open>KQ_Matern_32_Gaussian_Vectorized\<close>
  three entries for the two arguments of \<^verbatim>\<open>KQ_Matern_32_Gaussian\<close> (in both, the entry
  for \<open>X\<close> is \<^verbatim>\<open>None\<close>). Whatever the kernel, the embedding and the arguments are, the
  call raises and returns no value.
\<close>

theorem vectorized_in_axes_too_long_raises:
  "KQ_RBF_Gaussian_Vectorized my_RBF kme_RBF_Gaussian X f_X mu_X_theta var_X_theta
     = Inl (InAxesLength 5 4)
   \<and> KQ_Matern_32_Gaussian_Vectorized my_Matern_32 kme_Matern_32_Gaussian X' f_X'
     = Inl (InAxesLength 3 2)"
  by (simp add: KQ_RBF_Gaussian_Vectorized_def KQ_Matern_32_Gaussian_Vectorized_def vmap_def)

text \<open>
  Claim C1. A batched estimator applied to a batch of size \<open>T\<close> returns, at every
  \<open>i < T\<close>, what the single-instance estimator returns on slice \<open>i\<close>. The docstrings of
  the wrappers say so for every variant (``Vectorized over the first indice of X, f_X,
  mu_X_theta and var_X_theta'', result of shape \<open>(T,)\<close>), and five wrappers do it. The
  two of claim C2 do not: on the batch of size 1 below, whose only slice the
  single-instance estimator maps to a value, the wrapper raises.
\<close>

theorem gaussian_wrappers_fail_where_single_calls_succeed:
  "call4 (KQ_RBF_Gaussian (\<lambda>P Q l. [[1]]) (\<lambda>m c l P. [2]))
      [Arr [Arr [Scal 5]], Arr [Scal 3], Arr [Scal 0], Arr [Arr [Scal 1]]]
     = Inr (Some (6000000 / 1000001))
   \<and> KQ_RBF_Gaussian_Vectorized (\<lambda>P Q l. [[1]]) (\<lambda>m c l P. [2])
       (Arr [Arr [Arr [Scal 5]]]) (Arr [Arr [Scal 3]]) (Arr [Arr [Scal 0]])
       (Arr [Arr [Arr [Scal 1]]])
     = Inl (InAxesLength 5 4)
   \<and> call2 (KQ_Matern_32_Gaussian (\<lambda>P Q l. [[1]]) (\<lambda>l P. [2]))
      [Arr [Arr [Scal 5]], Arr [Scal 3]]
     = Inr (Some (6000000 / 1000001))
   \<and> KQ_Matern_32_Gaussian_Vectorized (\<lambda>P Q l. [[1]]) (\<lambda>l P. [2])
       (Arr [Arr [Arr [Scal 5]]]) (Arr [Arr [Scal 3]])
     = Inl (InAxesLength 3 2)"
proof -
  have s: "KQ_tail (Suc 0) [[1]] [2] [3] = Inr (Some (6000000 / 1000001))"
    by (simp add: KQ_tail_one)
  show ?thesis
    by (simp add: KQ_steps median_one_point s is_mat_def ncols_def
        KQ_RBF_Gaussian_Vectorized_def KQ_Matern_32_Gaussian_Vectorized_def vmap_def)
qed

subsection \<open>The four steps\<close>

text \<open>
  Claim C3. Every single-instance estimator computes its result by the same steps, with
  amplitude \<open>A = 1\<close> and \<open>eps = 1e-6\<close>: with the length scale \<open>l\<close> of its policy it
  forms \<open>K = A * kernel(X, X, l)\<close>, inverts \<open>K + eps * I\<close>, forms
  \<open>phi = A * embedding(measure parameters, l, X)\<close> and returns the scalar
  \<open>phi\<^sup>T (K + eps * I)\<^sup>-\<^sup>1 f_X\<close>. Each of the seven source functions equals the
  specification's algorithm, run on the kernel matrix and the embedding vector of its own
  length scale.
\<close>

theorem estimators_follow_four_steps:
  "KQ_RBF_Gaussian my_RBF kme_RBF_Gaussian X f_X mu_X_theta var_X_theta =
     (case jnp_median (jnp_abs (sub_rows X (mean0 X))) of
        None \<Rightarrow> Inr None
      | Some l \<Rightarrow>
          spec_four_steps (length X) (my_RBF X X l) (kme_RBF_Gaussian mu_X_theta var_X_theta l X)
            f_X)
   \<and> KQ_RBF_Uniform my_RBF kme_RBF_uniform X f_X a b =
     (case jnp_median (jnp_abs (sub_rows X (mean0 X))) of
        None \<Rightarrow> Inr None
      | Some l \<Rightarrow> spec_four_steps (length X) (my_RBF X X l) (kme_RBF_uniform a b l X) f_X)
   \<and> KQ_Matern_32_Gaussian my_Matern_32 kme_Matern_32_Gaussian X f_X =
     (case jnp_median (jnp_abs (sub_rows X (mean0 X))) of
        None \<Rightarrow> Inr None
      | Some l \<Rightarrow>
          spec_four_steps (length X) (my_Matern_32 X X l) (kme_Matern_32_Gaussian l X) f_X)
   \<and> KQ_Matern_12_Gaussian my_Matern_12_product kme_Matern_12_Gaussian X f_X =
     spec_four_steps (length X) (my_Matern_12_product X X (vsmult 1 (jnp_ones (ncols X))))
       (kme_Matern_12_Gaussian (vsmult 1 (jnp_ones (ncols X))) X) f_X
   \<and> KQ_Matern_32_Uniform my_Matern_32_product kme_Matern_32_Uniform X f_X av bv =
     spec_four_steps (length X) (my_Matern_32_product X X (vsmult 3 (jnp_ones (ncols X))))
       (kme_Matern_32_Uniform av bv (vsmult 3 (jnp_ones (ncols X))) X) f_X
   \<and> KQ_Matern_12_Uniform my_Matern_12 kme_Matern_12_Uniform X f_X a b =
     (case jnp_median (jnp_abs (sub_rows X (mean0 X))) of
        None \<Rightarrow> Inr None
      | Some l \<Rightarrow>
          spec_four_steps (length X) (my_Matern_12 X X l) (kme_Matern_12_Uniform a b l X) f_X)
   \<and> KQ_log_RBF_log_Gaussian my_log_RBF kme_log_normal_log_RBF X f_X mu std =
     spec_four_steps (length X) (my_log_RBF X X (1 / 10))
       (kme_log_normal_log_RBF mu std X (1 / 10)) f_X"
  by (simp only: KQ_steps KQ_tail_spec vsmult_def jnp_ones_def map_replicate mult_1_right
      mult_1 simp_thms)

theorem estimators_follow_four_steps_witness:
  "KQ_RBF_Gaussian (\<lambda>P Q l. [[1]]) (\<lambda>m c l P. [2]) [[5]] [3] () ()
     = spec_four_steps 1 [[1]] [2] [3]
   \<and> spec_four_steps 1 [[1]] [2] [3] = Inr (Some (6000000 / 1000001))"
proof -
  have "spec_four_steps 1 [[1]] [2] [3] = Inr (Some (6000000 / 1000001))"
    using KQ_tail_spec [of 1 "[[1]]" "[2]" "[3]", symmetric] by (simp add: KQ_tail_one)
  then show ?thesis
    using estimators_follow_four_steps [THEN conjunct1,
        of "\<lambda>P Q l. [[1]]" "\<lambda>m c l P. [2]" "[[5]]" "[3]" "()" "()"]
    by (simp add: median_one_point)
qed

subsection \<open>The length scales\<close>

text \<open>
  Claim C4. The variants with a hardcoded length scale use the constants of the
  specification's table, whatever the sample set is: Matern-1/2--Gaussian the vector of
  \<open>D\<close> ones, Matern-3/2--Uniform the vector of \<open>D\<close> threes, and log-RBF--log-Gaussian
  the scalar \<open>0.1\<close>.
\<close>

theorem fixed_length_scales:
  "KQ_Matern_12_Gaussian my_Matern_12_product kme_Matern_12_Gaussian X f_X =
     spec_four_steps (length X) (my_Matern_12_product X X (replicate (ncols X) 1))
       (kme_Matern_12_Gaussian (replicate (ncols X) 1) X) f_X
   \<and> KQ_Matern_32_Uniform my_Matern_32_product kme_Matern_32_Uniform X f_X a b =
     spec_four_steps (length X) (my_Matern_32_product X X (replicate (ncols X) 3))
       (kme_Matern_32_Uniform a b (replicate (ncols X) 3) X) f_X
   \<and> KQ_log_RBF_log_Gaussian my_log_RBF kme_log_normal_log_RBF X f_X mu std =
     spec_four_steps (length X) (my_log_RBF X X (1 / 10))
       (kme_log_normal_log_RBF mu std X (1 / 10)) f_X"
  by (simp only: KQ_steps KQ_tail_spec simp_thms)

theorem fixed_length_scales_witness:
  "KQ_Matern_32_Uniform (\<lambda>P Q l. [[sum_list l]]) (\<lambda>a b l P. l) [[5]] [3] () ()
     = spec_four_steps 1 [[3]] [3] [3]"
  using fixed_length_scales [THEN conjunct2, THEN conjunct1,
      of "\<lambda>P Q l. [[sum_list l]]" "\<lambda>a b l P. l" "[[5]]" "[3]" "()" "()"]
  by (simp add: ncols_def)

text \<open>
  Claim C5. The variants with the median heuristic (RBF--Gaussian, RBF--Uniform,
  Matern-3/2--Gaussian, Matern-1/2--Uniform) use the length scale
  \<open>l = median(|X - mean(X, axis=0)|)\<close>, one scalar taken over all entries, for every
  sample set \<open>X\<close> (an \<open>N \<times> D\<close> array).
\<close>

theorem median_heuristic_length_scale:
  assumes "is_mat (length X) (ncols X) X"
  shows
  "KQ_RBF_Gaussian my_RBF kme_RBF_Gaussian X f_X mu_X_theta var_X_theta =
     (case spec_median_heuristic X of
        None \<Rightarrow> Inr None
      | Some l \<Rightarrow>
          spec_four_steps (length X) (my_RBF X X l) (kme_RBF_Gaussian mu_X_theta var_X_theta l X)
            f_X)
   \<and> KQ_RBF_Uniform my_RBF kme_RBF_uniform X f_X a b =
     (case spec_median_heuristic X of
        None \<Rightarrow> Inr None
      | Some l \<Rightarrow> spec_four_steps (length X) (my_RBF X X l) (kme_RBF_uniform a b l X) f_X)
   \<and> KQ_Matern_32_Gaussian my_Matern_32 kme_Matern_32_Gaussian X f_X =
     (case spec_median_heuristic X of
        None \<Rightarrow> Inr None
      | Some l \<Rightarrow>
          spec_four_steps (length X) (my_Matern_32 X X l) (kme_Matern_32_Gaussian l X) f_X)
   \<and> KQ_Matern_12_Uniform my_Matern_12 kme_Matern_12_Uniform X f_X a b =
     (case spec_median_heuristic X of
        None \<Rightarrow> Inr None
      | Some l \<Rightarrow>
          spec_four_steps (length X) (my_Matern_12 X X l) (kme_Matern_12_Uniform a b l X) f_X)"
  by (simp only: KQ_steps KQ_tail_spec median_heuristic_spec [OF assms] simp_thms)

theorem median_heuristic_length_scale_witness:
  "spec_median_heuristic [[1, 5], [3, 2]] = Some (5 / 4)
   \<and> KQ_RBF_Gaussian (\<lambda>P Q l. [[2, 1], [1, 3]]) (\<lambda>m c l P. [l, 1]) [[1, 5], [3, 2]] [3, 4] () ()
     = spec_four_steps 2 [[2, 1], [1, 3]] [5 / 4, 1] [3, 4]"
proof -
  have shape: "is_mat (length [[1, 5], [3, 2::real]]) (ncols [[1, 5], [3, 2]]) [[1, 5], [3, 2]]"
    by (simp add: is_mat_def ncols_def)
  have l: "spec_median_heuristic [[1, 5], [3, 2]] = Some (5 / 4)"
    by code_simp
  show ?thesis
    using median_heuristic_length_scale [OF shape, THEN conjunct1,
        of "\<lambda>P Q l. [[2, 1], [1, 3]]" "\<lambda>m c l P. [l, 1]" "[3, 4]" "()" "()"] l
    by (simp add: numeral_2_eq_2)
qed



subsection \<open>The broadcast pattern of the wrappers\<close>

text \<open>
  Claim C6. \<^verbatim>\<open>KQ_RBF_Uniform_Vectorized\<close> and \<^verbatim>\<open>KQ_Matern_12_Uniform_Vectorized\<close> map
  \<open>X\<close> and \<open>f_X\<close> along axis 0 and hand the bounds \<open>a\<close> and \<open>b\<close>, whole, to the call
  on every slice; \<^verbatim>\<open>KQ_Matern_32_Uniform_Vectorized\<close> maps \<open>a\<close> and \<open>b\<close> along axis 0
  as well, and so raises on a bound that is a scalar.
\<close>

theorem uniform_wrappers_broadcast_pattern:
  assumes "0 < T" "length Xs = T" "length Fs = T"
  shows
  "stacked T (\<lambda>i. call4 (KQ_RBF_Uniform my_RBF kme_RBF_uniform) [Xs ! i, Fs ! i, a, b])
     (KQ_RBF_Uniform_Vectorized my_RBF kme_RBF_uniform (Arr Xs) (Arr Fs) a b)
   \<and> stacked T
       (\<lambda>i. call4 (KQ_Matern_12_Uniform my_Matern_12 kme_Matern_12_Uniform)
          [Xs ! i, Fs ! i, a, b])
       (KQ_Matern_12_Uniform_Vectorized my_Matern_12 kme_Matern_12_Uniform (Arr Xs) (Arr Fs) a b)
   \<and> (length As = T \<and> length Bs = T \<longrightarrow>
        stacked T
          (\<lambda>i. call4 (KQ_Matern_32_Uniform my_Matern_32_product kme_Matern_32_Uniform)
             [Xs ! i, Fs ! i, As ! i, Bs ! i])
          (KQ_Matern_32_Uniform_Vectorized my_Matern_32_product kme_Matern_32_Uniform
             (Arr Xs) (Arr Fs) (Arr As) (Arr Bs)))
   \<and> KQ_Matern_32_Uniform_Vectorized my_Matern_32_product kme_Matern_32_Uniform
        (Arr Xs) (Arr Fs) (Scal a0) b'
      = Inl AxisRank
   \<and> KQ_Matern_32_Uniform_Vectorized my_Matern_32_product kme_Matern_32_Uniform
        (Arr Xs) (Arr Fs) (Arr As) (Scal b0)
      = Inl AxisRank"
proof -
  have "KQ_Matern_32_Uniform_Vectorized my_Matern_32_product kme_Matern_32_Uniform
          (Arr Xs) (Arr Fs) (Scal a0) b' = Inl AxisRank"
    using assms by (cases b') (simp_all add: KQ_Matern_32_Uniform_Vectorized_def vmap_def)
  moreover
  have "KQ_Matern_32_Uniform_Vectorized my_Matern_32_product kme_Matern_32_Uniform
          (Arr Xs) (Arr Fs) (Arr As) (Scal b0) = Inl AxisRank"
    using assms by (simp add: KQ_Matern_32_Uniform_Vectorized_def vmap_def)
  ultimately show ?thesis
    using assms
    by (simp add: KQ_RBF_Uniform_Vectorized_def KQ_Matern_12_Uniform_Vectorized_def
        KQ_Matern_32_Uniform_Vectorized_def vmap_0_0_W_W vmap_0_0_0_0 stacked_collect)
qed

theorem uniform_wrappers_broadcast_pattern_witness:
  "stacked 2
     (\<lambda>i. call4 (KQ_RBF_Uniform (\<lambda>P Q l. [[1]]) (\<lambda>a b l P. [2]))
        [[Arr [Arr [Scal 5]], Arr [Arr [Scal 6]]] ! i, [Arr [Scal 3], Arr [Scal 4]] ! i,
         Scal 0, Scal 1])
     (KQ_RBF_Uniform_Vectorized (\<lambda>P Q l. [[1]]) (\<lambda>a b l P. [2])
        (Arr [Arr [Arr [Scal 5]], Arr [Arr [Scal 6]]]) (Arr [Arr [Scal 3], Arr [Scal 4]])
        (Scal 0) (Scal 1))
   \<and> KQ_RBF_Uniform_Vectorized (\<lambda>P Q l. [[1]]) (\<lambda>a b l P. [2])
        (Arr [Arr [Arr [Scal 5]], Arr [Arr [Scal 6]]]) (Arr [Arr [Scal 3], Arr [Scal 4]])
        (Scal 0) (Scal 1)
      = Inr [Some (6000000 / 1000001), Some (8000000 / 1000001)]
   \<and> KQ_Matern_32_Uniform_Vectorized (\<lambda>P Q l. [[1]]) (\<lambda>a b l P. [2])
        (Arr [Arr [Arr [Scal 5]], Arr [Arr [Scal 6]]]) (Arr [Arr [Scal 3], Arr [Scal 4]])
        (Arr [Arr [Scal 0], Arr [Scal 0]]) (Arr [Arr [Scal 1], Arr [Scal 1]])
      = Inr [Some (6000000 / 1000001), Some (8000000 / 1000001)]"
proof -
  have T: "0 < (2::nat)"
    and lX: "length [Arr [Arr [Scal 5]], Arr [Arr [Scal 6]]] = 2"
    and lF: "length [Arr [Scal 3], Arr [Scal 4]] = 2"
    by simp_all
  note inst = uniform_wrappers_broadcast_pattern [OF T lX lF, THEN conjunct1,
      of "\<lambda>P Q l. [[1]]" "\<lambda>a b l P. [2]" "Scal 0" "Scal 1"]
  have s3: "KQ_tail (Suc 0) [[1]] [2] [3] = Inr (Some (6000000 / 1000001))"
    and s4: "KQ_tail (Suc 0) [[1]] [2] [4] = Inr (Some (8000000 / 1000001))"
    by (simp_all add: KQ_tail_one)
  have upt2: "[0..<2] = [0, Suc 0]" by (simp add: upt_rec numeral_2_eq_2)
  have v1: "KQ_RBF_Uniform_Vectorized (\<lambda>P Q l. [[1]]) (\<lambda>a b l P. [2])
        (Arr [Arr [Arr [Scal 5]], Arr [Arr [Scal 6]]]) (Arr [Arr [Scal 3], Arr [Scal 4]])
        (Scal 0) (Scal 1)
      = Inr [Some (6000000 / 1000001), Some (8000000 / 1000001)]"
    by (simp add: KQ_RBF_Uniform_Vectorized_def vmap_0_0_W_W [OF lX lF] upt2 KQ_steps
        median_one_point median_other_point s3 s4 is_mat_def ncols_def)
  have v3: "KQ_Matern_32_Uniform_Vectorized (\<lambda>P Q l. [[1]]) (\<lambda>a b l P. [2])
        (Arr [Arr [Arr [Scal 5]], Arr [Arr [Scal 6]]]) (Arr [Arr [Scal 3], Arr [Scal 4]])
        (Arr [Arr [Scal 0], Arr [Scal 0]]) (Arr [Arr [Scal 1], Arr [Scal 1]])
      = Inr [Some (6000000 / 1000001), Some (8000000 / 1000001)]"
    by (simp add: KQ_Matern_32_Uniform_Vectorized_def vmap_0_0_0_0 [OF lX lF] upt2 KQ_steps
        s3 s4 is_mat_def ncols_def)
  from inst v1 v3 show ?thesis by simp
qed

subsection \<open>Linearity\<close>



subsection \<open>The regularized Gram matrix\<close>



subsection \<open>One sample point\<close>

text \<open>
  Claim C9. For a sample set of one point the result of every single-instance estimator
  is \<open>(A * embedding_value / (A * kernel_value + eps)) * f_X[0]\<close>, where \<open>kernel_value\<close>
  is the entry of the \<open>1 \<times> 1\<close> kernel matrix and \<open>embedding_value\<close> the entry of the
  embedding vector, both at the length scale of the variant, \<open>A = 1\<close> and \<open>eps = 1e-6\<close>
  (the regularized entry \<open>A * kernel_value + eps\<close> is not \<open>0\<close>, as for every kernel value
  that is not negative).
\<close>

theorem single_point_estimate:
  assumes "1 * kernel_value + 1 / 10 ^ 6 \<noteq> 0"
  shows
  "(jnp_median (jnp_abs (sub_rows [x] (mean0 [x]))) = Some l
      \<and> my_RBF [x] [x] l = [[kernel_value]]
      \<and> kme_RBF_Gaussian mu_X_theta var_X_theta l [x] = [embedding_value]
    \<longrightarrow> KQ_RBF_Gaussian my_RBF kme_RBF_Gaussian [x] [f0] mu_X_theta var_X_theta
        = Inr (Some ((1 * embedding_value / (1 * kernel_value + 1 / 10 ^ 6)) * f0)))
   \<and> (jnp_median (jnp_abs (sub_rows [x] (mean0 [x]))) = Some l
      \<and> my_RBF [x] [x] l = [[kernel_value]]
      \<and> kme_RBF_uniform a b l [x] = [embedding_value]
    \<longrightarrow> KQ_RBF_Uniform my_RBF kme_RBF_uniform [x] [f0] a b
        = Inr (Some ((1 * embedding_value / (1 * kernel_value + 1 / 10 ^ 6)) * f0)))
   \<and> (jnp_median (jnp_abs (sub_rows [x] (mean0 [x]))) = Some l
      \<and> my_Matern_32 [x] [x] l = [[kernel_value]]
      \<and> kme_Matern_32_Gaussian l [x] = [embedding_value]
    \<longrightarrow> KQ_Matern_32_Gaussian my_Matern_32 kme_Matern_32_Gaussian [x] [f0]
        = Inr (Some ((1 * embedding_value / (1 * kernel_value + 1 / 10 ^ 6)) * f0)))
   \<and> (my_Matern_12_product [x] [x] (replicate (length x) 1) = [[kernel_value]]
      \<and> kme_Matern_12_Gaussian (replicate (length x) 1) [x] = [embedding_value]
    \<longrightarrow> KQ_Matern_12_Gaussian my_Matern_12_product kme_Matern_12_Gaussian [x] [f0]
        = Inr (Some ((1 * embedding_value / (1 * kernel_value + 1 / 10 ^ 6)) * f0)))
   \<and> (my_Matern_32_product [x] [x] (replicate (length x) 3) = [[kernel_value]]
      \<and> kme_Matern_32_Uniform av bv (replicate (length x) 3) [x] = [embedding_value]
    \<longrightarrow> KQ_Matern_32_Uniform my_Matern_32_product kme_Matern_32_Uniform [x] [f0] av bv
        = Inr (Some ((1 * embedding_value / (1 * kernel_value + 1 / 10 ^ 6)) * f0)))
   \<and> (jnp_median (jnp_abs (sub_rows [x] (mean0 [x]))) = Some l
      \<and> my_Matern_12 [x] [x] l = [[kernel_value]]
      \<and> kme_Matern_12_Uniform a b l [x] = [embedding_value]
    \<longrightarrow> KQ_Matern_12_Uniform my_Matern_12 kme_Matern_12_Uniform [x] [f0] a b
        = Inr (Some ((1 * embedding_value / (1 * kernel_value + 1 / 10 ^ 6)) * f0)))
   \<and> (my_log_RBF [x] [x] (1 / 10) = [[kernel_value]]
      \<and> kme_log_normal_log_RBF mu std [x] (1 / 10) = [embedding_value]
    \<longrightarrow> KQ_log_RBF_log_Gaussian my_log_RBF kme_log_normal_log_RBF [x] [f0] mu std
        = Inr (Some ((1 * embedding_value / (1 * kernel_value + 1 / 10 ^ 6)) * f0)))"
proof -
  have one: "KQ_tail (Suc 0) [[kernel_value]] [embedding_value] [f0]
    = Inr (Some ((1 * embedding_value / (1 * kernel_value + 1 / 10 ^ 6)) * f0))"
    using assms by (simp only: KQ_tail_one if_False)
  have nc: "ncols [x] = length x" by (simp add: ncols_def)
  show ?thesis
    by (simp add: KQ_steps one nc)
qed

theorem single_point_estimate_witness:
  "KQ_RBF_Gaussian (\<lambda>P Q l. [[1]]) (\<lambda>m c l P. [2]) [[5]] [3] () ()
     = Inr (Some ((1 * 2 / (1 * 1 + 1 / 10 ^ 6)) * 3))
   \<and> KQ_log_RBF_log_Gaussian (\<lambda>P Q l. [[1]]) (\<lambda>m s P l. [2]) [[5]] [3] () ()
     = Inr (Some ((1 * 2 / (1 * 1 + 1 / 10 ^ 6)) * 3))"
proof -
  have nz: "1 * (1::real) + 1 / 10 ^ 6 \<noteq> 0" by simp
  note inst = single_point_estimate [OF nz]
  note last = inst [THEN conjunct2, THEN conjunct2, THEN conjunct2, THEN conjunct2,
      THEN conjunct2, THEN conjunct2]
  from inst [THEN conjunct1, of "[5]" 0 "\<lambda>P Q l. [[1]]" "\<lambda>m c l P. [2]" "()" "()" 2 3]
    last [of "\<lambda>P Q l. [[1]]" "[5]" "\<lambda>m s P l. [2]" "()" "()" 2 3]
  show ?thesis
    using median_one_point by simp
qed

end
